theory Spec2Isabelle
  imports Main "HOL-Library.AList"
begin

section \<open>Text built with QString\<close>

text \<open>
  Modelled from the spec: the \<^verbatim>\<open>QString\<close> functions that build the text of a query
  belong to Qt, not to the sources.  \<^verbatim>\<open>QString::arg\<close> replaces every occurrence of the
  place marker with the lowest number by its argument.  A place marker is \<^verbatim>\<open>%\<close>, an
  optional \<^verbatim>\<open>L\<close>, and one or two digits.  With no marker in the text the text is
  returned as it is.  \<^verbatim>\<open>arg\<close> of an integer substitutes its decimal digits
  (\<open>number\<close>).  Characters are bytes here.
\<close>

definition is_digit :: "char \<Rightarrow> bool" where
  "is_digit c = (c \<in> set ''0123456789'')"

definition digit_value :: "char \<Rightarrow> nat" where
  "digit_value c = of_char c - 48"

fun place_marker :: "string \<Rightarrow> (nat \<times> string) option" where
  "place_marker [] = None"
| "place_marker (c # r) =
     (if c \<noteq> CHR ''%'' then None
      else (let r' = (case r of [] \<Rightarrow> [] | l # t \<Rightarrow> if l = CHR ''L'' then t else r)
            in case r' of
                 [] \<Rightarrow> None
               | d1 # t1 \<Rightarrow>
                   if \<not> is_digit d1 then None
                   else (case t1 of
                           [] \<Rightarrow> Some (digit_value d1, t1)
                         | d2 # t2 \<Rightarrow>
                             if is_digit d2 then Some (10 * digit_value d1 + digit_value d2, t2)
                             else Some (digit_value d1, t1))))"

function escapes :: "string \<Rightarrow> nat list" where
  "escapes [] = []"
| "escapes (c # cs) =
     (case place_marker (c # cs) of None \<Rightarrow> escapes cs | Some (n, r) \<Rightarrow> n # escapes r)"
  by pat_completeness auto
termination
  by (relation "measure length") (auto simp: Let_def split: if_splits list.splits)

function replace_escapes :: "nat \<Rightarrow> string \<Rightarrow> string \<Rightarrow> string" where
  "replace_escapes n a [] = []"
| "replace_escapes n a (c # cs) =
     (case place_marker (c # cs) of
        None \<Rightarrow> c # replace_escapes n a cs
      | Some (m, r) \<Rightarrow> if m = n then a @ replace_escapes n a r else c # replace_escapes n a cs)"
  by pat_completeness auto
termination
  by (relation "measure (\<lambda>(n, a, s). length s)") (auto simp: Let_def split: if_splits list.splits)

definition arg :: "string \<Rightarrow> string \<Rightarrow> string" where
  "arg s a = (case escapes s of [] \<Rightarrow> s | n # ns \<Rightarrow> replace_escapes (fold min ns n) a s)"

function number_nat :: "nat \<Rightarrow> string" where
  "number_nat n =
     (if n < 10 then [''0123456789'' ! n]
      else number_nat (n div 10) @ [''0123456789'' ! (n mod 10)])"
  by pat_completeness auto
termination
  by (relation "measure id") auto

declare number_nat.simps [simp del]

definition number :: "int \<Rightarrow> string" where
  "number i = (if i < 0 then CHR ''-'' # number_nat (nat (- i)) else number_nat (nat i))"

section \<open>The profile database as history.cpp uses it\<close>

text \<open>
  \<^verbatim>\<open>src/persistence/history.cpp\<close> talks to the profile database through SQL text.
  The five tables are the ones its constructor creates; every column below is a column
  of the \<^verbatim>\<open>CREATE TABLE\<close> statements of the constructor.  Text and blob
  columns are strings, integer columns are integers, the nullable column
  \<^verbatim>\<open>history.file_id\<close> is an option.

  Integers are unbounded here.  The C++ uses \<^verbatim>\<open>int64_t\<close> for row ids and
  peer ids; an id is at most the number of rows ever inserted, so the 64 bit bound is out
  of reach of every run and no wrap-around is written out for ids.  The two conversions
  of the source that do narrow a value (\<^verbatim>\<open>toInt\<close>, \<^verbatim>\<open>toUInt\<close>) are
  modelled with their wrap-around.
\<close>

text \<open>
  \<^verbatim>\<open>ToxFile::FileDirection\<close> and \<^verbatim>\<open>ToxFile::FileStatus\<close> are declared
  in a header that is not part of the sources.  The database stores them as integers
  (\<^verbatim>\<open>static_cast<int>\<close>) and reads them back by the inverse cast, so the column
  is modelled by the enumeration itself.
\<close>

datatype FileDirection = SENDING | RECEIVING

datatype FileStatus = INITIALIZING | PAUSED | TRANSMITTING | BROKEN | CANCELED | FINISHED

record peers_row =
  p_id :: int
  p_public_key :: string

record aliases_row =
  a_id :: int
  a_owner :: int
  a_display_name :: string

record history_row =
  h_id :: int
  h_timestamp :: int
  h_chat_id :: int
  h_sender_alias :: int
  h_message :: string
  h_file_id :: "int option"

record file_transfers_row =
  f_id :: int
  f_chat_id :: int
  f_file_restart_id :: string
  f_file_name :: string
  f_file_path :: string
  f_file_hash :: string
  f_file_size :: int
  f_direction :: FileDirection
  f_file_state :: FileStatus

text \<open>
  Modelled from the spec: the storage engine (\<^verbatim>\<open>RawDatabase\<close> over SQLite) is an
  external collaborator whose code is not part of the sources.  A database is the content
  of the five tables (rows in insertion order), the \<^verbatim>\<open>user_version\<close> pragma, and
  the two values of the connection that the SQL of history.cpp reads:
  \<^verbatim>\<open>changes()\<close> and \<^verbatim>\<open>last_insert_rowid()\<close>.
\<close>

record RawDatabase =
  isOpen :: bool
  peers_tbl :: "peers_row list"
  aliases_tbl :: "aliases_row list"
  history_tbl :: "history_row list"
  file_transfers_tbl :: "file_transfers_row list"
  faux_offline_pending_tbl :: "int list"
  user_version :: int
  changes :: nat
  last_insert_rowid :: int

text \<open>
  Modelled from the spec: a table with an \<^verbatim>\<open>INTEGER PRIMARY KEY\<close> gives a new row
  that names no id the largest id of the table plus one, and 1 in an empty table.
\<close>

definition next_rowid :: "int list \<Rightarrow> int" where
  "next_rowid ids = (if ids = [] then 1 else Max (set ids) + 1)"

text \<open>
  The SQL statements that history.cpp writes, one constructor for each statement text,
  with the values the source substitutes for \<^verbatim>\<open>%1\<close>, \<^verbatim>\<open>%2\<close>, ... and binds
  to \<^verbatim>\<open>?\<close> as arguments, in the order of the text.  Every substituted value is
  an integer and every text is bound, with one exception: the \<^verbatim>\<open>INSERT INTO peers\<close>
  of \<^verbatim>\<open>generateNewMessageQueries\<close> pastes the public key into the text before
  \<^verbatim>\<open>arg\<close> runs over it.  That statement is kept as the text the source builds.
\<close>

datatype sql =
    INSERT_peers string
  | INSERT_OR_IGNORE_aliases int string
  | INSERT_history int int string int string
  | INSERT_faux_offline_pending
  | INSERT_file_transfers int string string string string int FileDirection FileStatus
  | UPDATE_history_file_id int
  | UPDATE_file_transfers_state FileStatus string string int
  | UPDATE_file_transfers_finished FileStatus int
  | DELETE_faux_offline_pending_chat int
  | DELETE_history_chat int
  | DELETE_aliases_owner int
  | DELETE_peers_id int
  | DELETE_file_transfers_chat int
  | DELETE_faux_offline_pending_id int
  | DELETE_faux_offline_pending
  | DELETE_history
  | DELETE_aliases
  | DELETE_peers
  | DELETE_file_transfers
  | VACUUM
  | CREATE_TABLES
  | ALTER_history_ADD_file_id
  | PRAGMA_user_version int

text \<open>
  Modelled from the spec: what SQLite does with each statement.  \<open>None\<close> is an SQL
  error (a constraint of the schema fails, or the statement does not compile).

  \<^item> \<^verbatim>\<open>INSERT INTO peers (id, public_key) VALUES (%1, '...')\<close>: the text is read
    as SQLite reads it, an integer literal and a string literal in which two quotes stand
    for one and which the next single quote ends; the statement compiles when the text
    ends with \<^verbatim>\<open>);\<close> after the literal.  A text that goes on in another way (a key
    with a quote can paste further SQL) is not followed: it fails here.  The id is the
    primary key and the key column is \<^verbatim>\<open>UNIQUE\<close>.
  \<^item> \<^verbatim>\<open>INSERT OR IGNORE INTO aliases (owner, display_name) VALUES (%1, ?)\<close>:
    \<^verbatim>\<open>UNIQUE(owner, display_name)\<close>; on a conflict nothing is inserted,
    \<^verbatim>\<open>changes()\<close> is 0 and \<^verbatim>\<open>last_insert_rowid()\<close> keeps its value.
  \<^item> \<^verbatim>\<open>INSERT INTO history (timestamp, chat_id, message, sender_alias) VALUES
    (%1, %2, ?, (CASE WHEN changes() IS 0 THEN (SELECT id FROM aliases WHERE owner=%3 AND
    display_name=?) ELSE last_insert_rowid() END))\<close>: \<^verbatim>\<open>sender_alias\<close> is
    \<^verbatim>\<open>NOT NULL\<close>; a scalar subquery is its first row, and NULL with no row.
  \<^item> \<^verbatim>\<open>INSERT INTO faux_offline_pending (id) VALUES (last_insert_rowid())\<close>:
    the id is the primary key.
  \<^item> \<^verbatim>\<open>UPDATE file_transfers SET finished = %1 WHERE id = %2\<close>: the table has
    no column \<^verbatim>\<open>finished\<close>, the statement does not compile.
  \<^item> \<^verbatim>\<open>CREATE TABLE IF NOT EXISTS\<close> and \<^verbatim>\<open>ALTER TABLE history ADD
    file_id INTEGER\<close> change the schema, not the rows: a table that does not exist yet
    is an empty list here, and a row of a version 0 store has no file id.  Whether the
    \<^verbatim>\<open>ALTER\<close> warns about an existing column is not modelled.
  \<^item> \<^verbatim>\<open>VACUUM\<close> keeps every row and every id.
\<close>

definition strip_prefix :: "string \<Rightarrow> string \<Rightarrow> string option" where
  "strip_prefix p s = (if take (length p) s = p then Some (drop (length p) s) else None)"

definition sql_integer :: "string \<Rightarrow> (int \<times> string) option" where
  "sql_integer s =
     (let negative = (take 1 s = ''-'');
          r = (if negative then drop 1 s else s);
          digits = takeWhile is_digit r;
          v = int (foldl (\<lambda>a c. 10 * a + digit_value c) 0 digits)
      in if digits = [] then None
         else Some (if negative then - v else v, dropWhile is_digit r))"

fun sql_string :: "string \<Rightarrow> (string \<times> string) option" where
  "sql_string [] = None"
| "sql_string (c # cs) =
     (if c = CHR 0x27
      then (case cs of
              [] \<Rightarrow> Some ([], [])
            | c' # cs' \<Rightarrow>
                if c' = CHR 0x27
                then map_option (\<lambda>(v, r). (CHR 0x27 # v, r)) (sql_string cs')
                else Some ([], cs))
      else if c = CHR 0x00 then None
      else map_option (\<lambda>(v, r). (c # v, r)) (sql_string cs))"

definition parse_INSERT_peers :: "string \<Rightarrow> (int \<times> string) option" where
  "parse_INSERT_peers stmt =
     (case strip_prefix ''INSERT INTO peers (id, public_key) VALUES ('' stmt of
        None \<Rightarrow> None
      | Some r1 \<Rightarrow>
          (case sql_integer r1 of
             None \<Rightarrow> None
           | Some (i, r2) \<Rightarrow>
               (case strip_prefix ('', '' @ [CHR 0x27]) r2 of
                  None \<Rightarrow> None
                | Some r3 \<Rightarrow>
                    (case sql_string r3 of
                       None \<Rightarrow> None
                     | Some (pk, r4) \<Rightarrow> if r4 = '');'' then Some (i, pk) else None))))"

fun exec_sql :: "sql \<Rightarrow> RawDatabase \<Rightarrow> RawDatabase option" where
  "exec_sql (INSERT_peers stmt) d =
     (case parse_INSERT_peers stmt of
        None \<Rightarrow> None
      | Some (i, pk) \<Rightarrow>
          if i \<in> set (map p_id (peers_tbl d)) \<or> pk \<in> set (map p_public_key (peers_tbl d))
          then None
          else Some (d\<lparr>peers_tbl := peers_tbl d @ [\<lparr>p_id = i, p_public_key = pk\<rparr>],
                       changes := 1, last_insert_rowid := i\<rparr>))"
| "exec_sql (INSERT_OR_IGNORE_aliases ownerId dispName) d =
     (if (ownerId, dispName) \<in> set (map (\<lambda>a. (a_owner a, a_display_name a)) (aliases_tbl d))
      then Some (d\<lparr>changes := 0\<rparr>)
      else (let i = next_rowid (map a_id (aliases_tbl d))
            in Some (d\<lparr>aliases_tbl := aliases_tbl d @
                          [\<lparr>a_id = i, a_owner = ownerId, a_display_name = dispName\<rparr>],
                        changes := 1, last_insert_rowid := i\<rparr>)))"
| "exec_sql (INSERT_history ts chatId msg ownerId dispName) d =
     (case (if changes d = 0
            then map_option a_id
                   (find (\<lambda>a. a_owner a = ownerId \<and> a_display_name a = dispName)
                      (aliases_tbl d))
            else Some (last_insert_rowid d)) of
        None \<Rightarrow> None
      | Some alias \<Rightarrow>
          (let i = next_rowid (map h_id (history_tbl d))
           in Some (d\<lparr>history_tbl := history_tbl d @
                         [\<lparr>h_id = i, h_timestamp = ts, h_chat_id = chatId,
                           h_sender_alias = alias, h_message = msg, h_file_id = None\<rparr>],
                       changes := 1, last_insert_rowid := i\<rparr>)))"
| "exec_sql INSERT_faux_offline_pending d =
     (if last_insert_rowid d \<in> set (faux_offline_pending_tbl d) then None
      else Some (d\<lparr>faux_offline_pending_tbl := faux_offline_pending_tbl d @ [last_insert_rowid d],
                   changes := 1\<rparr>))"
| "exec_sql (INSERT_file_transfers chatId restartId path name hash sz dir st) d =
     (let i = next_rowid (map f_id (file_transfers_tbl d))
      in Some (d\<lparr>file_transfers_tbl := file_transfers_tbl d @
                    [\<lparr>f_id = i, f_chat_id = chatId, f_file_restart_id = restartId,
                      f_file_name = name, f_file_path = path, f_file_hash = hash,
                      f_file_size = sz, f_direction = dir, f_file_state = st\<rparr>],
                  changes := 1, last_insert_rowid := i\<rparr>))"
| "exec_sql (UPDATE_history_file_id historyId) d =
     Some (d\<lparr>history_tbl :=
                map (\<lambda>r. if h_id r = historyId then r\<lparr>h_file_id := Some (last_insert_rowid d)\<rparr>
                         else r) (history_tbl d),
              changes := length (filter (\<lambda>r. h_id r = historyId) (history_tbl d))\<rparr>)"
| "exec_sql (UPDATE_file_transfers_state st path hash i) d =
     Some (d\<lparr>file_transfers_tbl :=
                map (\<lambda>r. if f_id r = i
                         then r\<lparr>f_file_state := st, f_file_path := path, f_file_hash := hash\<rparr>
                         else r) (file_transfers_tbl d),
              changes := length (filter (\<lambda>r. f_id r = i) (file_transfers_tbl d))\<rparr>)"
| "exec_sql (UPDATE_file_transfers_finished st i) d = None"
| "exec_sql (DELETE_faux_offline_pending_chat chatId) d =
     Some (d\<lparr>faux_offline_pending_tbl :=
                filter (\<lambda>m. (m, chatId) \<notin> set (map (\<lambda>r. (h_id r, h_chat_id r)) (history_tbl d)))
                  (faux_offline_pending_tbl d),
              changes := length (filter
                  (\<lambda>m. (m, chatId) \<in> set (map (\<lambda>r. (h_id r, h_chat_id r)) (history_tbl d)))
                  (faux_offline_pending_tbl d))\<rparr>)"
| "exec_sql (DELETE_history_chat chatId) d =
     Some (d\<lparr>history_tbl := filter (\<lambda>r. h_chat_id r \<noteq> chatId) (history_tbl d),
              changes := length (filter (\<lambda>r. h_chat_id r = chatId) (history_tbl d))\<rparr>)"
| "exec_sql (DELETE_aliases_owner ownerId) d =
     Some (d\<lparr>aliases_tbl := filter (\<lambda>r. a_owner r \<noteq> ownerId) (aliases_tbl d),
              changes := length (filter (\<lambda>r. a_owner r = ownerId) (aliases_tbl d))\<rparr>)"
| "exec_sql (DELETE_peers_id i) d =
     Some (d\<lparr>peers_tbl := filter (\<lambda>r. p_id r \<noteq> i) (peers_tbl d),
              changes := length (filter (\<lambda>r. p_id r = i) (peers_tbl d))\<rparr>)"
| "exec_sql (DELETE_file_transfers_chat chatId) d =
     Some (d\<lparr>file_transfers_tbl := filter (\<lambda>r. f_chat_id r \<noteq> chatId) (file_transfers_tbl d),
              changes := length (filter (\<lambda>r. f_chat_id r = chatId) (file_transfers_tbl d))\<rparr>)"
| "exec_sql (DELETE_faux_offline_pending_id messageId) d =
     Some (d\<lparr>faux_offline_pending_tbl := filter (\<lambda>m. m \<noteq> messageId) (faux_offline_pending_tbl d),
              changes := length (filter (\<lambda>m. m = messageId) (faux_offline_pending_tbl d))\<rparr>)"
| "exec_sql DELETE_faux_offline_pending d =
     Some (d\<lparr>faux_offline_pending_tbl := [], changes := length (faux_offline_pending_tbl d)\<rparr>)"
| "exec_sql DELETE_history d =
     Some (d\<lparr>history_tbl := [], changes := length (history_tbl d)\<rparr>)"
| "exec_sql DELETE_aliases d =
     Some (d\<lparr>aliases_tbl := [], changes := length (aliases_tbl d)\<rparr>)"
| "exec_sql DELETE_peers d =
     Some (d\<lparr>peers_tbl := [], changes := length (peers_tbl d)\<rparr>)"
| "exec_sql DELETE_file_transfers d =
     Some (d\<lparr>file_transfers_tbl := [], changes := length (file_transfers_tbl d)\<rparr>)"
| "exec_sql VACUUM d = Some d"
| "exec_sql CREATE_TABLES d = Some d"
| "exec_sql ALTER_history_ADD_file_id d = Some d"
| "exec_sql (PRAGMA_user_version v) d = Some (d\<lparr>user_version := v\<rparr>)"

section \<open>Queries, callbacks and the write queue\<close>

text \<open>
  A \<^verbatim>\<open>RawDatabase::Query\<close> is an SQL text (one or more statements) with an optional
  callback that receives the id of the inserted row.  The callbacks of history.cpp are the
  two lambdas of \<^verbatim>\<open>addNewFileMessage\<close> and \<^verbatim>\<open>onFileInsertionReady\<close>, which
  emit the signals \<^verbatim>\<open>fileInsertionReady\<close> and \<^verbatim>\<open>fileInserted\<close>, and
  whatever function the caller of \<^verbatim>\<open>addNewMessage\<close> passes.
\<close>

record FileDbInsertionData =
  ins_historyId :: int
  ins_friendPk :: string
  ins_fileId :: string
  ins_fileName :: string
  ins_filePath :: string
  ins_size :: int
  ins_direction :: FileDirection

datatype callback =
    insertFileTransferFn FileDbInsertionData
  | fileInsertedFn string
  | callerCallback

datatype signal =
    fileInsertionReady FileDbInsertionData
  | fileInserted int string
  | callerNotified int

fun run_callback :: "callback \<Rightarrow> int \<Rightarrow> signal" where
  "run_callback (insertFileTransferFn insertionData) messageId =
     fileInsertionReady (insertionData\<lparr>ins_historyId := messageId\<rparr>)"
| "run_callback (fileInsertedFn fileId) i = fileInserted i fileId"
| "run_callback callerCallback i = callerNotified i"

type_synonym Query = "sql list \<times> callback option"

text \<open>
  Modelled from the spec: the queue of \<^verbatim>\<open>RawDatabase\<close> applies the batches in
  the order of their submission, each batch as a whole or not at all, and calls a
  query's callback with the row id its insert generated, after the batch.  The writes of
  history.cpp never read the database back except through \<^verbatim>\<open>execNow\<close>, which waits
  for every queued batch, so a batch is applied here when it is submitted.  What a callback
  emits is returned to the caller of the model, who decides when the signal is delivered:
  that is the asynchrony the file-transfer linking depends on.
\<close>

fun exec_statements :: "sql list \<Rightarrow> RawDatabase \<Rightarrow> RawDatabase option" where
  "exec_statements [] d = Some d"
| "exec_statements (s # ss) d =
     (case exec_sql s d of None \<Rightarrow> None | Some d' \<Rightarrow> exec_statements ss d')"

fun exec_queries :: "Query list \<Rightarrow> RawDatabase \<Rightarrow> (RawDatabase \<times> signal list) option" where
  "exec_queries [] d = Some (d, [])"
| "exec_queries ((stmts, cb) # qs) d =
     (case exec_statements stmts d of
        None \<Rightarrow> None
      | Some d' \<Rightarrow>
          (case exec_queries qs d' of
             None \<Rightarrow> None
           | Some (d'', sigs) \<Rightarrow>
               Some (d'', (case cb of None \<Rightarrow> []
                           | Some c \<Rightarrow> [run_callback c (last_insert_rowid d')]) @ sigs)))"

definition execLater :: "Query list \<Rightarrow> RawDatabase \<Rightarrow> RawDatabase \<times> signal list" where
  "execLater qs d =
     (if \<not> isOpen d then (d, [])
      else case exec_queries qs d of None \<Rightarrow> (d, []) | Some r \<Rightarrow> r)"

definition execNow :: "Query list \<Rightarrow> RawDatabase \<Rightarrow> bool \<times> RawDatabase" where
  "execNow qs d =
     (if \<not> isOpen d then (False, d)
      else case exec_queries qs d of None \<Rightarrow> (False, d) | Some (d', sigs) \<Rightarrow> (True, d'))"

section \<open>The History object\<close>

record FileInfo =
  fi_finished :: bool
  fi_success :: bool
  fi_filePath :: string
  fi_fileHash :: string
  fi_fileId :: int

text \<open>
  Modelled from the spec: \<^verbatim>\<open>struct FileInfo\<close> is declared in history.h, which is not
  part of the sources.  A default-constructed entry is the state "no outcome known, no
  database id known" of the spec's transient link state; \<^verbatim>\<open>setFileFinished\<close> tests
  the unknown id as \<^verbatim>\<open>fileId == -1\<close>.
\<close>

definition FileInfo_default :: FileInfo where
  "FileInfo_default =
     \<lparr>fi_finished = False, fi_success = False, fi_filePath = [], fi_fileHash = [], fi_fileId = - 1\<rparr>"

text \<open>
  The members of \<^verbatim>\<open>History\<close>: the shared pointer \<^verbatim>\<open>db\<close> (\<open>None\<close> is the null
  pointer, which \<^verbatim>\<open>db.reset()\<close> leaves), and the two \<^verbatim>\<open>QHash\<close>es
  \<^verbatim>\<open>peers\<close> and \<^verbatim>\<open>fileInfos\<close> as association lists with one entry for each
  key (a new key goes to the end; the order is never observed).  \<open>connected\<close> records
  that the constructor reached its two \<^verbatim>\<open>connect\<close> calls.
\<close>

record History =
  db :: "RawDatabase option"
  peers :: "(string \<times> int) list"
  fileInfos :: "(string \<times> FileInfo) list"
  connected :: bool

datatype error = NullPointerDereference

definition NUM_MESSAGES_DEFAULT :: int where
  "NUM_MESSAGES_DEFAULT = 100"

definition SCHEMA_VERSION :: int where
  "SCHEMA_VERSION = 1"

definition isValid :: "History \<Rightarrow> bool" where
  "isValid h = (case db h of None \<Rightarrow> False | Some d \<Rightarrow> isOpen d)"

text \<open>
  \<^verbatim>\<open>QHash::operator[]\<close> on a hash that is not const inserts a default-constructed
  value for a key that is absent and returns a reference to it.
\<close>

definition qhash_index :: "('k \<times> 'v) list \<Rightarrow> 'k \<Rightarrow> 'v \<Rightarrow> 'v \<times> ('k \<times> 'v) list" where
  "qhash_index m k dflt =
     (case map_of m k of Some v \<Rightarrow> (v, m) | None \<Rightarrow> (dflt, AList.update k dflt m))"

text \<open>
  The block that \<^verbatim>\<open>generateNewMessageQueries\<close> runs twice, first for
  \<^verbatim>\<open>friendPk\<close> and then for \<^verbatim>\<open>sender\<close>: the cached id, or the largest cached id
  plus one (0 in an empty cache), cached at once and inserted by a query.  The text of
  the query is the concatenation \<^verbatim>\<open>"INSERT INTO peers (id, public_key) " "VALUES (%1, '"
  + friendPk + "');"\<close>, and \<^verbatim>\<open>.arg(peerId)\<close> runs over the whole of it.
\<close>

definition getPeerId :: "(string \<times> int) list \<Rightarrow> string \<Rightarrow> int \<times> (string \<times> int) list \<times> Query list" where
  "getPeerId ps pk =
     (case map_of ps pk of
        Some i \<Rightarrow> (i, ps, [])
      | None \<Rightarrow>
          (let i = (if ps = [] then 0 else Max (set (map snd ps)) + 1)
           in (i, AList.update pk i ps,
               [([INSERT_peers
                    (arg (''INSERT INTO peers (id, public_key) '' @ ''VALUES (%1, '' @ [CHR 0x27] @
                          pk @ [CHR 0x27] @ '');'')
                       (number i))], None)])))"

definition generateNewMessageQueries ::
  "(string \<times> int) list \<Rightarrow> string \<Rightarrow> string \<Rightarrow> string \<Rightarrow> int \<Rightarrow> bool \<Rightarrow> string \<Rightarrow>
   callback option \<Rightarrow> (string \<times> int) list \<times> Query list" where
  "generateNewMessageQueries ps friendPk message sender time isSent dispName insertIdCallback =
     (case getPeerId ps friendPk of
        (peerId, ps1, queries1) \<Rightarrow>
          (case getPeerId ps1 sender of
             (senderId, ps2, queries2) \<Rightarrow>
               (ps2,
                queries1 @ queries2 @
                [([INSERT_OR_IGNORE_aliases senderId dispName], None),
                 ([INSERT_history time peerId message senderId dispName], insertIdCallback)] @
                (if \<not> isSent then [([INSERT_faux_offline_pending], None)] else []))))"

text \<open>
  \<^verbatim>\<open>Settings::getInstance().getEnableLogging()\<close> is a global setting; it is the
  first argument here.
\<close>

definition addNewMessage ::
  "bool \<Rightarrow> History \<Rightarrow> string \<Rightarrow> string \<Rightarrow> string \<Rightarrow> int \<Rightarrow> bool \<Rightarrow> string \<Rightarrow>
   callback option \<Rightarrow> History \<times> signal list" where
  "addNewMessage enableLogging h friendPk message sender time isSent dispName insertIdCallback =
     (if \<not> enableLogging then (h, [])
      else case db h of
        None \<Rightarrow> (h, [])
      | Some d \<Rightarrow>
          if \<not> isOpen d then (h, [])
          else (case generateNewMessageQueries (peers h) friendPk message sender time isSent
                       dispName insertIdCallback of
                  (ps, queries) \<Rightarrow>
                    (case execLater queries d of
                       (d', sigs) \<Rightarrow> (h\<lparr>db := Some d', peers := ps\<rparr>, sigs))))"

definition addNewFileMessage ::
  "bool \<Rightarrow> History \<Rightarrow> string \<Rightarrow> string \<Rightarrow> string \<Rightarrow> string \<Rightarrow> int \<Rightarrow> string \<Rightarrow> int \<Rightarrow>
   string \<Rightarrow> History \<times> signal list" where
  "addNewFileMessage enableLogging h friendPk fileId fileName filePath sz sender time dispName =
     (let direction = (if sender = friendPk then RECEIVING else SENDING);
          insertionData = \<lparr>ins_historyId = 0, ins_friendPk = friendPk, ins_fileId = fileId,
                           ins_fileName = fileName, ins_filePath = filePath, ins_size = sz,
                           ins_direction = direction\<rparr>
      in addNewMessage enableLogging h friendPk [] sender time True dispName
           (Some (insertFileTransferFn insertionData)))"

definition onFileInsertionReady :: "History \<Rightarrow> FileDbInsertionData \<Rightarrow> error + History \<times> signal list" where
  "onFileInsertionReady h insertionData =
     (case qhash_index (peers h) (ins_friendPk insertionData) 0 of
        (peerId, ps) \<Rightarrow>
          (let queries =
                 [([INSERT_file_transfers peerId (ins_fileId insertionData)
                      (ins_filePath insertionData) (ins_fileName insertionData) []
                      (ins_size insertionData) (ins_direction insertionData) CANCELED],
                   Some (fileInsertedFn (ins_fileId insertionData))),
                  ([UPDATE_history_file_id (ins_historyId insertionData)], None)]
           in case db h of
                None \<Rightarrow> Inl NullPointerDereference
              | Some d \<Rightarrow>
                  (case execLater queries d of
                     (d', sigs) \<Rightarrow> Inr (h\<lparr>db := Some d', peers := ps\<rparr>, sigs))))"

definition generateFileFinished :: "int \<Rightarrow> bool \<Rightarrow> string \<Rightarrow> string \<Rightarrow> Query" where
  "generateFileFinished i success filePath fileHash =
     (let file_state = (if success then FINISHED else CANCELED)
      in if length filePath \<noteq> 0
         then ([UPDATE_file_transfers_state file_state filePath fileHash i], None)
         else ([UPDATE_file_transfers_finished file_state i], None))"

definition onFileInserted :: "History \<Rightarrow> int \<Rightarrow> string \<Rightarrow> error + History \<times> signal list" where
  "onFileInserted h dbId fileId =
     (case qhash_index (fileInfos h) fileId FileInfo_default of
        (fileInfo, infos) \<Rightarrow>
          if fi_finished fileInfo
          then (case db h of
                  None \<Rightarrow> Inl NullPointerDereference
                | Some d \<Rightarrow>
                    (case execLater [generateFileFinished dbId (fi_success fileInfo)
                                       (fi_filePath fileInfo) (fi_fileHash fileInfo)] d of
                       (d', sigs) \<Rightarrow>
                         Inr (h\<lparr>db := Some d', fileInfos := AList.delete fileId infos\<rparr>, sigs)))
          else Inr (h\<lparr>fileInfos :=
                        AList.update fileId (fileInfo\<lparr>fi_finished := False, fi_fileId := dbId\<rparr>) infos\<rparr>,
                    []))"

definition setFileFinished :: "History \<Rightarrow> string \<Rightarrow> bool \<Rightarrow> string \<Rightarrow> string \<Rightarrow> error + History \<times> signal list" where
  "setFileFinished h fileId success filePath fileHash =
     (case qhash_index (fileInfos h) fileId FileInfo_default of
        (fileInfo, infos) \<Rightarrow>
          if fi_fileId fileInfo = - 1
          then Inr (h\<lparr>fileInfos :=
                        AList.delete fileId
                          (AList.update fileId
                             (fileInfo\<lparr>fi_finished := True, fi_success := success,
                                        fi_filePath := filePath, fi_fileHash := fileHash\<rparr>) infos)\<rparr>,
                    [])
          else (case db h of
                  None \<Rightarrow> Inl NullPointerDereference
                | Some d \<Rightarrow>
                    (case execLater [generateFileFinished (fi_fileId fileInfo) success filePath
                                       fileHash] d of
                       (d', sigs) \<Rightarrow>
                         Inr (h\<lparr>db := Some d', fileInfos := AList.delete fileId infos\<rparr>, sigs))))"

definition markAsSent :: "History \<Rightarrow> int \<Rightarrow> History" where
  "markAsSent h messageId =
     (case db h of
        None \<Rightarrow> h
      | Some d \<Rightarrow>
          if \<not> isOpen d then h
          else h\<lparr>db := Some (fst (execLater [([DELETE_faux_offline_pending_id messageId], None)] d))\<rparr>)"

definition eraseHistory :: "History \<Rightarrow> History" where
  "eraseHistory h =
     (case db h of
        None \<Rightarrow> h
      | Some d \<Rightarrow>
          if \<not> isOpen d then h
          else h\<lparr>db := Some (snd (execNow
                 [([DELETE_faux_offline_pending, DELETE_history, DELETE_aliases, DELETE_peers,
                    DELETE_file_transfers, VACUUM], None)] d))\<rparr>)"

definition removeFriendHistory :: "History \<Rightarrow> string \<Rightarrow> History" where
  "removeFriendHistory h friendPk =
     (case db h of
        None \<Rightarrow> h
      | Some d \<Rightarrow>
          if \<not> isOpen d then h
          else (case map_of (peers h) friendPk of
                  None \<Rightarrow> h
                | Some i \<Rightarrow>
                    (case execNow
                            [([DELETE_faux_offline_pending_chat i, DELETE_history_chat i,
                               DELETE_aliases_owner i, DELETE_peers_id i,
                               DELETE_file_transfers_chat i, VACUUM], None)] d of
                       (ok, d') \<Rightarrow>
                         if ok then h\<lparr>db := Some d', peers := AList.delete friendPk (peers h)\<rparr>
                         else h\<lparr>db := Some d'\<rparr>)))"

text \<open>
  \<^verbatim>\<open>dbSchemaUpgrade\<close> runs in the constructor, after \<^verbatim>\<open>isValid()\<close>, on the
  database \<open>d\<close> that \<^verbatim>\<open>db\<close> points to.  \<open>None\<close> is the pointer after
  \<^verbatim>\<open>db.reset()\<close>.  The \<^verbatim>\<open>switch\<close> falls through: version 0 runs the
  \<^verbatim>\<open>ALTER\<close> and then the default branch, every other older version the default
  branch alone.
\<close>

definition dbSchemaUpgrade :: "RawDatabase \<Rightarrow> RawDatabase option" where
  "dbSchemaUpgrade d =
     (let databaseSchemaVersion = user_version d
      in if databaseSchemaVersion > SCHEMA_VERSION then None
         else if databaseSchemaVersion = SCHEMA_VERSION then Some d
         else (let d1 = (if databaseSchemaVersion = 0
                         then fst (execLater [([ALTER_history_ADD_file_id], None)] d)
                         else d)
               in Some (fst (execLater [([PRAGMA_user_version SCHEMA_VERSION], None)] d1))))"

text \<open>
  \<^verbatim>\<open>QVariant::toInt\<close> of a 64 bit value keeps its low 32 bits, as a signed number.
\<close>

definition toInt :: "int \<Rightarrow> int" where
  "toInt v = (v + 2147483648) mod 4294967296 - 2147483648"

text \<open>
  The constructor \<^verbatim>\<open>History::History(db)\<close>: nothing happens on a database that is
  not open; a store that is too new leaves the null pointer; otherwise the signals are
  connected, the tables are created and the cache \<^verbatim>\<open>peers\<close> is filled from the
  rows of the table \<^verbatim>\<open>peers\<close>.
\<close>

definition History_new :: "RawDatabase option \<Rightarrow> History" where
  "History_new rdb =
     (let h0 = \<lparr>db = rdb, peers = [], fileInfos = [], connected = False\<rparr>
      in case rdb of
           None \<Rightarrow> h0
         | Some d \<Rightarrow>
             if \<not> isOpen d then h0
             else (case dbSchemaUpgrade d of
                     None \<Rightarrow> h0\<lparr>db := None\<rparr>
                   | Some d1 \<Rightarrow>
                       if \<not> isOpen d1 then h0\<lparr>db := Some d1\<rparr>
                       else (let d2 = fst (execLater [([CREATE_TABLES], None)] d1)
                             in h0\<lparr>db := Some d2, connected := True,
                                   peers := fold (\<lambda>row m. AList.update (p_public_key row)
                                                             (toInt (p_id row)) m)
                                              (peers_tbl d2) []\<rparr>)))"

section \<open>Sequences of calls\<close>

text \<open>
  The arguments of one call of \<^verbatim>\<open>addNewMessage\<close> (with logging enabled and no
  callback), and a sequence of such calls.
\<close>

record NewMessage =
  m_friendPk :: string
  m_message :: string
  m_sender :: string
  m_time :: int
  m_isSent :: bool
  m_dispName :: string

definition addNewMessages :: "History \<Rightarrow> NewMessage list \<Rightarrow> History" where
  "addNewMessages h ms =
     fold (\<lambda>m h'. fst (addNewMessage True h' (m_friendPk m) (m_message m) (m_sender m) (m_time m)
                          (m_isSent m) (m_dispName m) None)) ms h"

text \<open>
  The identifiers a sequence of calls presents to the peer cache, in the order in which
  \<^verbatim>\<open>generateNewMessageQueries\<close> looks them up, and the distinct identifiers of a
  sequence in the order of their first occurrence.
\<close>

definition identifiers_of :: "NewMessage list \<Rightarrow> string list" where
  "identifiers_of ms = concat (map (\<lambda>m. [m_friendPk m, m_sender m]) ms)"

definition seen :: "'a list \<Rightarrow> 'a \<Rightarrow> 'a list" where
  "seen acc k = (if k \<in> set acc then acc else acc @ [k])"

definition first_seen :: "'a list \<Rightarrow> 'a list" where
  "first_seen ks = fold (\<lambda>k acc. seen acc k) ks []"

definition numbered :: "'a list \<Rightarrow> ('a \<times> int) list" where
  "numbered ks = zip ks (map int [0..<length ks])"

text \<open>An opened profile database that was just created: no rows, version 0.\<close>

definition fresh_db :: RawDatabase where
  "fresh_db = \<lparr>isOpen = True, peers_tbl = [], aliases_tbl = [], history_tbl = [],
                file_transfers_tbl = [], faux_offline_pending_tbl = [], user_version = 0,
                changes = 0, last_insert_rowid = 0\<rparr>"

text \<open>A message "hi" at time 1000, not yet sent, under the display name "name".\<close>

definition chat_msg :: "string \<Rightarrow> string \<Rightarrow> NewMessage" where
  "chat_msg friendPk sender =
     \<lparr>m_friendPk = friendPk, m_message = ''hi'', m_sender = sender, m_time = 1000,
      m_isSent = False, m_dispName = ''name''\<rparr>"

section \<open>Fetching the history of a chat\<close>

text \<open>
  \<^verbatim>\<open>HistMessage\<close>, its content and \<^verbatim>\<open>ToxFile\<close> are declared in headers that are
  not part of the sources; the fields are the ones \<^verbatim>\<open>getChatHistory\<close> fills, in the
  order of its two initialiser lists.
\<close>

datatype FileKind = TOX_FILE_KIND_DATA

record ToxFile =
  tf_fileKind :: FileKind
  tf_resumeFileId :: string
  tf_filePath :: string
  tf_fileName :: string
  tf_filesize :: int
  tf_direction :: FileDirection
  tf_status :: FileStatus

datatype HistMessageContent = MessageContent string | FileContent ToxFile

record HistMessage =
  hm_id :: int
  hm_isSent :: bool
  hm_timestamp :: int
  hm_chat :: string
  hm_dispName :: string
  hm_sender :: string
  hm_content :: HistMessageContent

text \<open>
  One row of the \<^verbatim>\<open>SELECT\<close> of \<^verbatim>\<open>getChatHistory\<close>.  The six columns of
  \<^verbatim>\<open>file_transfers\<close> come from one \<^verbatim>\<open>LEFT JOIN\<close> and are NULL together.
\<close>

record chat_history_row =
  r_history_id :: int
  r_faux_offline_pending_id :: "int option"
  r_timestamp :: int
  r_chat_public_key :: string
  r_display_name :: string
  r_sender_public_key :: string
  r_message :: string
  r_file_transfers :: "file_transfers_row option"

text \<open>
  Modelled from the spec: the \<^verbatim>\<open>SELECT ... FROM history LEFT JOIN faux_offline_pending
  ... JOIN peers chat ... JOIN aliases ... JOIN peers sender ... LEFT JOIN file_transfers ...
  WHERE timestamp BETWEEN %1 AND %2 AND chat.public_key='%3'\<close> of
  \<^verbatim>\<open>getChatHistory\<close>.  Every join is on a primary key, so a history row meets at
  most one row of each joined table; the rows come in the order of the table.
\<close>

definition select_chat_history :: "RawDatabase \<Rightarrow> int \<Rightarrow> int \<Rightarrow> string \<Rightarrow> chat_history_row list" where
  "select_chat_history d fromMs toMs friendPk =
     List.map_filter
       (\<lambda>r. case find (\<lambda>p. p_id p = h_chat_id r) (peers_tbl d) of
               None \<Rightarrow> None
             | Some chat \<Rightarrow>
                 (case find (\<lambda>a. a_id a = h_sender_alias r) (aliases_tbl d) of
                    None \<Rightarrow> None
                  | Some alias \<Rightarrow>
                      (case find (\<lambda>p. p_id p = a_owner alias) (peers_tbl d) of
                         None \<Rightarrow> None
                       | Some sender \<Rightarrow>
                           if fromMs \<le> h_timestamp r \<and> h_timestamp r \<le> toMs \<and>
                              p_public_key chat = friendPk
                           then Some
                             \<lparr>r_history_id = h_id r,
                              r_faux_offline_pending_id =
                                find (\<lambda>m. m = h_id r) (faux_offline_pending_tbl d),
                              r_timestamp = h_timestamp r,
                              r_chat_public_key = p_public_key chat,
                              r_display_name = a_display_name alias,
                              r_sender_public_key = p_public_key sender,
                              r_message = h_message r,
                              r_file_transfers =
                                (case h_file_id r of
                                   None \<Rightarrow> None
                                 | Some i \<Rightarrow> find (\<lambda>f. f_id f = i) (file_transfers_tbl d))\<rparr>
                           else None)))
       (history_tbl d)"

text \<open>
  The lambda \<^verbatim>\<open>rowCallback\<close> of \<^verbatim>\<open>getChatHistory\<close>.  The flag it calls
  \<^verbatim>\<open>isOfflineMessage\<close> is true when the row has no pending marker; null bytes are
  stripped from the display name.
\<close>

definition rowCallback :: "chat_history_row \<Rightarrow> HistMessage" where
  "rowCallback row =
     (let isOfflineMessage = (r_faux_offline_pending_id row = None);
          display_name = filter (\<lambda>c. c \<noteq> CHR 0x00) (r_display_name row)
      in case r_file_transfers row of
           None \<Rightarrow>
             \<lparr>hm_id = r_history_id row, hm_isSent = isOfflineMessage,
              hm_timestamp = r_timestamp row, hm_chat = r_chat_public_key row,
              hm_dispName = display_name, hm_sender = r_sender_public_key row,
              hm_content = MessageContent (r_message row)\<rparr>
         | Some f \<Rightarrow>
             \<lparr>hm_id = r_history_id row, hm_isSent = isOfflineMessage,
              hm_timestamp = r_timestamp row, hm_chat = r_chat_public_key row,
              hm_dispName = display_name, hm_sender = r_sender_public_key row,
              hm_content = FileContent
                \<lparr>tf_fileKind = TOX_FILE_KIND_DATA, tf_resumeFileId = f_file_restart_id f,
                 tf_filePath = f_file_path f, tf_fileName = f_file_name f,
                 tf_filesize = f_file_size f, tf_direction = f_direction f,
                 tf_status = f_file_state f\<rparr>\<rparr>)"

text \<open>
  Modelled from the spec: \<^verbatim>\<open>LIMIT n\<close> keeps the first \<open>n\<close> rows, and every row
  when \<open>n\<close> is negative.
\<close>

definition sql_limit :: "int \<Rightarrow> 'a list \<Rightarrow> 'a list" where
  "sql_limit n xs = (if n < 0 then xs else take (nat n) xs)"

text \<open>
  \<^verbatim>\<open>getChatHistory\<close> itself does not test \<^verbatim>\<open>isValid()\<close>; its callers do.  With
  \<^verbatim>\<open>numMessages\<close> it wraps the query into \<^verbatim>\<open>SELECT * FROM (... ORDER BY history.id
  DESC limit %1) AS T1 ORDER BY T1.id ASC\<close>.  On a database that is not open
  \<^verbatim>\<open>execNow\<close> runs nothing and the list stays empty.
\<close>

definition getChatHistory :: "History \<Rightarrow> string \<Rightarrow> int \<Rightarrow> int \<Rightarrow> int \<Rightarrow> error + HistMessage list" where
  "getChatHistory h friendPk fromMs toMs numMessages =
     (case db h of
        None \<Rightarrow> Inl NullPointerDereference
      | Some d \<Rightarrow>
          Inr (if \<not> isOpen d then []
               else map rowCallback
                      (if numMessages \<noteq> 0
                       then sort_key r_history_id
                              (sql_limit numMessages
                                 (rev (sort_key r_history_id
                                         (select_chat_history d fromMs toMs friendPk))))
                       else select_chat_history d fromMs toMs friendPk)))"

definition getChatHistoryFromDate :: "History \<Rightarrow> string \<Rightarrow> int \<Rightarrow> int \<Rightarrow> error + HistMessage list" where
  "getChatHistoryFromDate h friendPk fromMs toMs =
     (if \<not> isValid h then Inr [] else getChatHistory h friendPk fromMs toMs 0)"

text \<open>
  \<^verbatim>\<open>QDateTime::currentDateTime()\<close> is the first argument \<open>now\<close> (milliseconds since
  the epoch).
\<close>

definition getChatHistoryDefaultNum :: "int \<Rightarrow> History \<Rightarrow> string \<Rightarrow> error + HistMessage list" where
  "getChatHistoryDefaultNum now h friendPk =
     (if \<not> isValid h then Inr [] else getChatHistory h friendPk 0 now NUM_MESSAGES_DEFAULT)"

definition isHistoryExistence :: "int \<Rightarrow> History \<Rightarrow> string \<Rightarrow> error + bool" where
  "isHistoryExistence now h friendPk =
     (case getChatHistoryDefaultNum now h friendPk of
        Inl e \<Rightarrow> Inl e
      | Inr messages \<Rightarrow> Inr (messages \<noteq> []))"

section \<open>Counting the messages of each day\<close>

record DateMessages =
  dm_offsetDays :: nat
  dm_count :: nat

text \<open>
  \<^verbatim>\<open>QVariant::toUInt\<close> of a 64 bit value keeps its low 32 bits.
\<close>

definition toUInt :: "int \<Rightarrow> nat" where
  "toUInt v = nat (v mod 4294967296)"

text \<open>
  Modelled from the spec: the integer division of SQL truncates towards zero, and
  \<^verbatim>\<open>COUNT(...) ... GROUP BY day\<close> yields one row for each value of \<open>day\<close> with
  the number of rows that have it.  The rows are scanned one by one, each adding one to
  the count of its group; the groups come out in the order of their keys.
\<close>

definition sql_div :: "int \<Rightarrow> int \<Rightarrow> int" where
  "sql_div a b = sgn a * sgn b * (\<bar>a\<bar> div \<bar>b\<bar>)"

fun count_row :: "int \<Rightarrow> (int \<times> nat) list \<Rightarrow> (int \<times> nat) list" where
  "count_row k [] = [(k, 1)]"
| "count_row k ((k', c) # gs) = (if k = k' then (k', Suc c) # gs else (k', c) # count_row k gs)"

definition sql_count_group_by :: "int list \<Rightarrow> (int \<times> nat) list" where
  "sql_count_group_by keys = sort_key fst (fold count_row keys [])"

text \<open>
  Modelled from the spec: \<^verbatim>\<open>QDate\<close> and \<^verbatim>\<open>QDateTime\<close> belong to Qt.  A
  \<^verbatim>\<open>QDate\<close> is the number of its day since 1970-01-01.  \<^verbatim>\<open>QDateTime(QDate)\<close> is
  the midnight that starts the day in local time, and
  \<^verbatim>\<open>QDateTime::fromMSecsSinceEpoch(0)\<close> is the start of the epoch in local time, so
  both depend on the time zone of the process.  A time zone is what the source reads of
  it: \<open>local_midnight d\<close>, the milliseconds since the epoch of the local midnight that starts
  day \<open>d\<close> (\<^verbatim>\<open>QDateTime(d).toMSecsSinceEpoch()\<close>), and \<open>epoch_local_date\<close>, the
  local date at the start of the epoch (day 0 in UTC and east of Greenwich, day -1 west of
  it).  \<^verbatim>\<open>daysTo\<close> is the difference of the two local dates.
\<close>

record TimeZone =
  local_midnight :: "int \<Rightarrow> int"
  epoch_local_date :: int



text \<open>
  \<^verbatim>\<open>getChatHistoryCounts\<close>.  The query is
  \<^verbatim>\<open>SELECT COUNT(history.id), ((timestamp / 1000 / 60 / 60 / 24) - %4 ) AS day FROM
  history JOIN peers chat ON chat_id = chat.id WHERE timestamp BETWEEN %1 AND %2 AND
  chat.public_key='%3' GROUP BY day\<close>, with \<^verbatim>\<open>fromTime.toMSecsSinceEpoch()\<close>,
  \<^verbatim>\<open>toTime.toMSecsSinceEpoch()\<close>, \<^verbatim>\<open>friendPk.toString()\<close> (the hexadecimal text of
  a \<^verbatim>\<open>ToxPk\<close>, which holds no quote and no place marker) and
  \<^verbatim>\<open>QDateTime::fromMSecsSinceEpoch(0).daysTo(fromTime)\<close> for the four place markers.
\<close>

definition epoch_day :: "int \<Rightarrow> int" where
  "epoch_day ts = sql_div (sql_div (sql_div (sql_div ts 1000) 60) 60) 24"

definition day_column :: "int \<Rightarrow> int \<Rightarrow> int" where
  "day_column ts fromDays = epoch_day ts - fromDays"

definition select_counts :: "RawDatabase \<Rightarrow> int \<Rightarrow> int \<Rightarrow> string \<Rightarrow> int \<Rightarrow> (int \<times> nat) list" where
  "select_counts d fromMs toMs friendPk fromDays =
     sql_count_group_by
       (map (\<lambda>r. day_column (h_timestamp r) fromDays)
          (filter (\<lambda>r. (case find (\<lambda>p. p_id p = h_chat_id r) (peers_tbl d) of
                           None \<Rightarrow> False
                         | Some chat \<Rightarrow> fromMs \<le> h_timestamp r \<and> h_timestamp r \<le> toMs \<and>
                                        p_public_key chat = friendPk))
             (history_tbl d)))"

definition getChatHistoryCounts ::
  "TimeZone \<Rightarrow> History \<Rightarrow> string \<Rightarrow> int \<Rightarrow> int \<Rightarrow> DateMessages list" where
  "getChatHistoryCounts tz h friendPk fromDate toDate =
     (case db h of
        None \<Rightarrow> []
      | Some d \<Rightarrow>
          if \<not> isOpen d then []
          else (let fromTime = local_midnight tz fromDate; toTime = local_midnight tz toDate;
                    daysTo = fromDate - epoch_local_date tz
                in map (\<lambda>(day, n). \<lparr>dm_offsetDays = toUInt day, dm_count = toUInt (int n)\<rparr>)
                     (select_counts d fromTime toTime friendPk daysTo)))"

section \<open>Searching for a phrase\<close>

text \<open>
  Modelled from the spec: \<^verbatim>\<open>QString::replace\<close> of a character by a text, and
  \<^verbatim>\<open>toLower\<close>, which maps the letters A to Z here.
\<close>

definition replace_char :: "char \<Rightarrow> string \<Rightarrow> string \<Rightarrow> string" where
  "replace_char old new s = concat (map (\<lambda>c. if c = old then new else [c]) s)"

definition toLower :: "string \<Rightarrow> string" where
  "toLower s =
     map (\<lambda>c. if (65::nat) \<le> of_char c \<and> of_char c \<le> (90::nat)
              then char_of (of_char c + (32::nat)) else c) s"

text \<open>
  \<^verbatim>\<open>FilterSearch\<close>, \<^verbatim>\<open>PeriodSearch\<close> and \<^verbatim>\<open>ParameterSearch\<close> are declared in a
  header that is not part of the sources.  The constructors are the values that the two
  \<^verbatim>\<open>switch\<close> statements name, and one more for every value that takes the
  \<^verbatim>\<open>default\<close> branch.
\<close>

datatype FilterSearch =
  Register | WordsOnly | RegisterAndWordsOnly | Regular | RegisterAndRegular | OtherFilter

datatype PeriodSearch = WithTheFirst | AfterDate | BeforeDate | OtherPeriod

record ParameterSearch =
  ps_filter :: FilterSearch
  ps_period :: PeriodSearch
  ps_date :: int

text \<open>
  The text that \<^verbatim>\<open>getDateWhereFindPhrase\<close> hands to \<^verbatim>\<open>execNow\<close>.
  \<^verbatim>\<open>SearchExtraFunctions::generateFilterWordsOnly\<close> is not part of the sources and is
  an argument.  \<open>fromDate\<close> is \<open>None\<close> for an invalid \<^verbatim>\<open>QDateTime\<close>, \<open>now\<close>
  is the current time in milliseconds, and \<^verbatim>\<open>QDateTime(parameter.date)\<close> is midnight
  (UTC) of the day \<open>ps_date\<close>.
\<close>

definition getDateWhereFindPhrase_queryText ::
  "(string \<Rightarrow> string) \<Rightarrow> int \<Rightarrow> string \<Rightarrow> int option \<Rightarrow> string \<Rightarrow> ParameterSearch \<Rightarrow> string" where
  "getDateWhereFindPhrase_queryText generateFilterWordsOnly now friendPk fromDate phrase0 parameter =
     (let phrase = replace_char (CHR 0x27) [CHR 0x27, CHR 0x27] phrase0;
          message =
            (case ps_filter parameter of
               Register \<Rightarrow> arg (''message LIKE '%%1%'' @ [CHR 0x27]) phrase
             | WordsOnly \<Rightarrow>
                 arg (''message REGEXP '%1'' @ [CHR 0x27]) (toLower (generateFilterWordsOnly phrase))
             | RegisterAndWordsOnly \<Rightarrow>
                 arg ''REGEXPSENSITIVE(message, '%1')'' (generateFilterWordsOnly phrase)
             | Regular \<Rightarrow> arg (''message REGEXP '%1'' @ [CHR 0x27]) phrase
             | RegisterAndRegular \<Rightarrow> arg ''REGEXPSENSITIVE(message '%1')'' phrase
             | OtherFilter \<Rightarrow> arg (''LOWER(message) LIKE '%%1%'' @ [CHR 0x27]) (toLower phrase));
          date0 = (case fromDate of None \<Rightarrow> now | Some t \<Rightarrow> t);
          date = (if ps_period parameter = AfterDate \<or> ps_period parameter = BeforeDate
                  then ps_date parameter * 86400000 else date0);
          period =
            (case ps_period parameter of
               WithTheFirst \<Rightarrow> ''ORDER BY timestamp ASC LIMIT 1;''
             | AfterDate \<Rightarrow>
                 arg ''AND timestamp > '%1' ORDER BY timestamp ASC LIMIT 1;'' (number date)
             | BeforeDate \<Rightarrow>
                 arg ''AND timestamp < '%1' ORDER BY timestamp DESC LIMIT 1;'' (number date)
             | OtherPeriod \<Rightarrow>
                 arg ''AND timestamp < '%1' ORDER BY timestamp DESC LIMIT 1;'' (number date))
      in arg (arg (arg
           (''SELECT timestamp '' @ ''FROM history '' @
            ''LEFT JOIN faux_offline_pending ON history.id = faux_offline_pending.id '' @
            ''JOIN peers chat ON chat_id = chat.id '' @
            ''WHERE chat.public_key='%1' '' @ ''AND %2 '' @ ''%3'')
           friendPk) message) period)"

text \<open>
  Modelled from the spec: how the storage engine evaluates the text of a \<^verbatim>\<open>SELECT\<close>
  is the argument \<open>run_select\<close> (the timestamps of the rows it returns; none when the
  text does not compile).  The row callback keeps the timestamp of the last row; the
  result stays invalid (\<open>None\<close>) with no row.  Neither function tests
  \<^verbatim>\<open>isValid()\<close> before it uses \<^verbatim>\<open>db\<close>.
\<close>

definition getDateWhereFindPhrase ::
  "(string \<Rightarrow> string) \<Rightarrow> (string \<Rightarrow> RawDatabase \<Rightarrow> int list) \<Rightarrow> int \<Rightarrow> History \<Rightarrow> string \<Rightarrow>
   int option \<Rightarrow> string \<Rightarrow> ParameterSearch \<Rightarrow> error + int option" where
  "getDateWhereFindPhrase generateFilterWordsOnly run_select now h friendPk fromDate phrase parameter =
     (let queryText = getDateWhereFindPhrase_queryText generateFilterWordsOnly now friendPk
                        fromDate phrase parameter
      in case db h of
           None \<Rightarrow> Inl NullPointerDereference
         | Some d \<Rightarrow>
             Inr (if \<not> isOpen d then None
                  else (case run_select queryText d of [] \<Rightarrow> None | t # ts \<Rightarrow> Some (last (t # ts)))))"

definition getStartDateChatHistory ::
  "(string \<Rightarrow> RawDatabase \<Rightarrow> int list) \<Rightarrow> History \<Rightarrow> string \<Rightarrow> error + int option" where
  "getStartDateChatHistory run_select h friendPk =
     (let queryText =
            arg (''SELECT timestamp '' @ ''FROM history '' @
                 ''LEFT JOIN faux_offline_pending ON history.id = faux_offline_pending.id '' @
                 ''JOIN peers chat ON chat_id = chat.id '' @
                 ''WHERE chat.public_key='%1' ORDER BY timestamp ASC LIMIT 1;'') friendPk
      in case db h of
           None \<Rightarrow> Inl NullPointerDereference
         | Some d \<Rightarrow>
             Inr (if \<not> isOpen d then None
                  else (case run_select queryText d of [] \<Rightarrow> None | t # ts \<Rightarrow> Some (last (t # ts)))))"

section \<open>Consistent stores\<close>

text \<open>
  What the constructor establishes and every operation keeps: the cache \<^verbatim>\<open>peers\<close>
  holds every row of the table \<^verbatim>\<open>peers\<close> (it may hold more: \<^verbatim>\<open>eraseHistory\<close>
  empties the table and leaves the cache), the primary keys and the \<^verbatim>\<open>UNIQUE\<close> key
  column have no duplicates, and a pending marker belongs to a message of the table
  \<^verbatim>\<open>history\<close>.
\<close>

definition peers_cached :: "(string \<times> int) list \<Rightarrow> RawDatabase \<Rightarrow> bool" where
  "peers_cached ps d =
     (distinct (map fst ps) \<and>
      set (map (\<lambda>p. (p_public_key p, p_id p)) (peers_tbl d)) \<subseteq> set ps \<and>
      distinct (map p_id (peers_tbl d)) \<and>
      distinct (map p_public_key (peers_tbl d)))"

definition consistent :: "History \<Rightarrow> bool" where
  "consistent h =
     (case db h of
        None \<Rightarrow> False
      | Some d \<Rightarrow>
          isOpen d \<and> peers_cached (peers h) d \<and>
          distinct (map a_id (aliases_tbl d)) \<and>
          distinct (map h_id (history_tbl d)) \<and>
          distinct (map f_id (file_transfers_tbl d)) \<and>
          distinct (faux_offline_pending_tbl d) \<and>
          set (faux_offline_pending_tbl d) \<subseteq> set (map h_id (history_tbl d)))"

text \<open>
  A public key that can stand between the quotes of the \<^verbatim>\<open>INSERT INTO peers\<close> text
  as it is: no quote, no \<^verbatim>\<open>%\<close> (the start of a place marker of \<^verbatim>\<open>arg\<close>) and no
  NUL.  A Tox public key is written in hexadecimal digits.
\<close>

definition plain_key :: "string \<Rightarrow> bool" where
  "plain_key pk = (CHR 0x27 \<notin> set pk \<and> CHR ''%'' \<notin> set pk \<and> CHR 0x00 \<notin> set pk)"

text \<open>Two databases that differ in the table \<^verbatim>\<open>peers\<close> and the connection values at most.\<close>

definition same_but_peers :: "RawDatabase \<Rightarrow> RawDatabase \<Rightarrow> bool" where
  "same_but_peers d d1 =
     (isOpen d1 = isOpen d \<and> aliases_tbl d1 = aliases_tbl d \<and> history_tbl d1 = history_tbl d \<and>
      file_transfers_tbl d1 = file_transfers_tbl d \<and>
      faux_offline_pending_tbl d1 = faux_offline_pending_tbl d \<and>
      user_version d1 = user_version d)"

text \<open>
  What the claims observe of a store: whether a message has a pending marker, and the
  stored content (the five tables and the schema version).
\<close>

definition pending :: "History \<Rightarrow> int \<Rightarrow> bool" where
  "pending h messageId =
     (case db h of None \<Rightarrow> False | Some d \<Rightarrow> messageId \<in> set (faux_offline_pending_tbl d))"


text \<open>
  The alias id that the row of a message carries, and the id of the alias row of a sender
  (by the cached peer id) and a display name.
\<close>

definition sender_alias_of :: "History \<Rightarrow> int \<Rightarrow> int option" where
  "sender_alias_of h messageId =
     (case db h of
        None \<Rightarrow> None
      | Some d \<Rightarrow> map_option h_sender_alias (find (\<lambda>r. h_id r = messageId) (history_tbl d)))"

definition alias_of :: "History \<Rightarrow> string \<Rightarrow> string \<Rightarrow> int option" where
  "alias_of h sender dispName =
     (case db h of
        None \<Rightarrow> None
      | Some d \<Rightarrow>
          (case map_of (peers h) sender of
             None \<Rightarrow> None
           | Some senderId \<Rightarrow>
               map_option a_id
                 (find (\<lambda>a. a_owner a = senderId \<and> a_display_name a = dispName) (aliases_tbl d))))"

text \<open>The ids of the rows of the table \<^verbatim>\<open>history\<close>, a primary key.\<close>

definition history_ids :: "History \<Rightarrow> int list" where
  "history_ids h = (case db h of None \<Rightarrow> [] | Some d \<Rightarrow> map h_id (history_tbl d))"

text \<open>
  Every row of \<^verbatim>\<open>history\<close> with the given id is linked to a row of
  \<^verbatim>\<open>file_transfers\<close> whose state is \<^verbatim>\<open>CANCELED\<close>.
\<close>

definition links_canceled :: "RawDatabase \<Rightarrow> int \<Rightarrow> bool" where
  "links_canceled d historyId =
     (\<forall>r \<in> set (history_tbl d). h_id r = historyId \<longrightarrow>
        (\<exists>i row. h_file_id r = Some i \<and>
                 find (\<lambda>f. f_id f = i) (file_transfers_tbl d) = Some row \<and>
                 f_file_state row = CANCELED))"

text \<open>The row of \<^verbatim>\<open>file_transfers\<close> with a given id.\<close>

definition file_row :: "History \<Rightarrow> int \<Rightarrow> file_transfers_row option" where
  "file_row h i =
     (case db h of None \<Rightarrow> None | Some d \<Rightarrow> find (\<lambda>f. f_id f = i) (file_transfers_tbl d))"




section \<open>Signals and their delivery\<close>

text \<open>
  The constructor connects \<^verbatim>\<open>fileInsertionReady\<close> to \<^verbatim>\<open>onFileInsertionReady\<close> and
  \<^verbatim>\<open>fileInserted\<close> to \<^verbatim>\<open>onFileInserted\<close>.  A signal that a callback emitted
  is delivered some time later; \<open>deliver\<close> is that moment.  The callback of a caller of
  \<^verbatim>\<open>addNewMessage\<close> is not a slot of \<^verbatim>\<open>History\<close>.
\<close>

fun deliver :: "History \<Rightarrow> signal \<Rightarrow> error + History \<times> signal list" where
  "deliver h (fileInsertionReady insertionData) =
     (if connected h then onFileInsertionReady h insertionData else Inr (h, []))"
| "deliver h (fileInserted dbId fileId) =
     (if connected h then onFileInserted h dbId fileId else Inr (h, []))"
| "deliver h (callerNotified i) = Inr (h, [])"

text \<open>
  A schedule of what happens after a first call: the oldest signal that is still waiting
  is delivered, or the file-transfer layer reports the end of a transfer with
  \<^verbatim>\<open>setFileFinished\<close>.  The signals wait in the order of their emission.
\<close>

datatype step = DeliverNext | SetFileFinished string bool string string

fun run :: "step list \<Rightarrow> History \<times> signal list \<Rightarrow> error + History \<times> signal list" where
  "run [] s = Inr s"
| "run (DeliverNext # steps) (h, []) = run steps (h, [])"
| "run (DeliverNext # steps) (h, sg # waiting) =
     (case deliver h sg of
        Inl e \<Rightarrow> Inl e
      | Inr (h', emitted) \<Rightarrow> run steps (h', waiting @ emitted))"
| "run (SetFileFinished fileId success filePath fileHash # steps) (h, waiting) =
     (case setFileFinished h fileId success filePath fileHash of
        Inl e \<Rightarrow> Inl e
      | Inr (h', emitted) \<Rightarrow> run steps (h', waiting @ emitted))"

section \<open>Runs of calls\<close>

text \<open>
  The calls that change a store, and a run of them.  The signals that a call emits wait
  behind the signals that wait already; a scheduled step delivers the oldest of them or
  reports the end of a transfer.  A run stops at the first use of the null pointer.
\<close>

datatype call =
    AddNewMessage bool string string string int bool string "callback option"
  | AddNewFileMessage bool string string string string int string int string
  | MarkAsSent int
  | EraseHistory
  | RemoveFriendHistory string
  | Scheduled step

fun call_step :: "call \<Rightarrow> History \<times> signal list \<Rightarrow> error + History \<times> signal list" where
  "call_step (AddNewMessage enableLogging friendPk message sender time isSent dispName cb) (h, waiting) =
     (case addNewMessage enableLogging h friendPk message sender time isSent dispName cb of
        (h', emitted) \<Rightarrow> Inr (h', waiting @ emitted))"
| "call_step (AddNewFileMessage enableLogging friendPk fileId fileName filePath sz sender time dispName)
     (h, waiting) =
     (case addNewFileMessage enableLogging h friendPk fileId fileName filePath sz sender time dispName of
        (h', emitted) \<Rightarrow> Inr (h', waiting @ emitted))"
| "call_step (MarkAsSent messageId) (h, waiting) = Inr (markAsSent h messageId, waiting)"
| "call_step EraseHistory (h, waiting) = Inr (eraseHistory h, waiting)"
| "call_step (RemoveFriendHistory friendPk) (h, waiting) = Inr (removeFriendHistory h friendPk, waiting)"
| "call_step (Scheduled st) s = run [st] s"

fun calls :: "call list \<Rightarrow> History \<times> signal list \<Rightarrow> error + History \<times> signal list" where
  "calls [] s = Inr s"
| "calls (c # cs) s = (case call_step c s of Inl e \<Rightarrow> Inl e | Inr s' \<Rightarrow> calls cs s')"



text \<open>
  A run for the peer cache: two chats are written, the history of the second friend is
  erased, and a third friend writes.
\<close>

definition reuse_before :: History where
  "reuse_before = addNewMessages (History_new (Some fresh_db)) [chat_msg ''A'' ''A'', chat_msg ''B'' ''B'']"

definition reuse_after :: History where
  "reuse_after = addNewMessages (removeFriendHistory reuse_before ''B'') [chat_msg ''C'' ''C'']"


text \<open>
  One file transfer on a new store: a file of 42 bytes is sent to friend B by S, and the
  transfer ends with success, final path \<^verbatim>\<open>/x\<close> and a hash.  In
  \<open>finished_last\<close> both callbacks run before the end is reported, in
  \<open>finished_before_inserted\<close> the end is reported after the file row was queued and
  before \<^verbatim>\<open>onFileInserted\<close> runs, in \<open>finished_first\<close> before either callback.
\<close>

definition file_message :: "History \<times> signal list" where
  "file_message =
     addNewFileMessage True (History_new (Some fresh_db)) ''B'' ''session'' ''f.txt''
       ''/tmp/f.txt'' 42 ''S'' 1000 ''me''"

definition finished_last :: "error + History \<times> signal list" where
  "finished_last =
     run [DeliverNext, DeliverNext, SetFileFinished ''session'' True ''/x'' ''hash''] file_message"

definition finished_before_inserted :: "error + History \<times> signal list" where
  "finished_before_inserted =
     run [DeliverNext, SetFileFinished ''session'' True ''/x'' ''hash'', DeliverNext] file_message"

definition finished_first :: "error + History \<times> signal list" where
  "finished_first =
     run [SetFileFinished ''session'' True ''/x'' ''hash'', DeliverNext, DeliverNext] file_message"

text \<open>The rows of \<^verbatim>\<open>file_transfers\<close> and \<^verbatim>\<open>history\<close> at the end of a run.\<close>

definition file_rows :: "error + History \<times> signal list \<Rightarrow> file_transfers_row list" where
  "file_rows r =
     (case r of Inl e \<Rightarrow> []
      | Inr (h, waiting) \<Rightarrow> (case db h of None \<Rightarrow> [] | Some d \<Rightarrow> file_transfers_tbl d))"

definition history_rows :: "error + History \<times> signal list \<Rightarrow> history_row list" where
  "history_rows r =
     (case r of Inl e \<Rightarrow> []
      | Inr (h, waiting) \<Rightarrow> (case db h of None \<Rightarrow> [] | Some d \<Rightarrow> history_tbl d))"

text \<open>
  Two file transfers on a new store.  S sends a file to B in the session \<^verbatim>\<open>sB\<close>; the
  message and the file row are written and linked.  While that transfer runs, the history
  of B is erased.  Then S sends a file to A in the session \<^verbatim>\<open>sA\<close>, and the message
  and the file row are written and linked.  In \<open>after_stale_finish\<close> the transfer to B
  then ends with success; the transfer to A has not ended.
\<close>

definition stale_run :: "call list" where
  "stale_run =
     [AddNewFileMessage True ''B'' ''sB'' ''f.txt'' ''/tmp/f.txt'' 42 ''S'' 1000 ''me'',
      Scheduled DeliverNext,
      Scheduled DeliverNext,
      RemoveFriendHistory ''B'',
      AddNewFileMessage True ''A'' ''sA'' ''g.txt'' ''/tmp/g.txt'' 7 ''S'' 2000 ''me'',
      Scheduled DeliverNext,
      Scheduled DeliverNext]"

definition before_stale_finish :: "error + History \<times> signal list" where
  "before_stale_finish = calls stale_run (History_new (Some fresh_db), [])"

definition after_stale_finish :: "error + History \<times> signal list" where
  "after_stale_finish =
     calls (stale_run @ [Scheduled (SetFileFinished ''sB'' True ''/x'' ''hash'')])
       (History_new (Some fresh_db), [])"

text \<open>
  What \<^verbatim>\<open>getChatHistoryFromDate\<close> returns for a chat between the times 0 and 5000 at
  the end of a run (the ids and the contents), and the transfers that \<^verbatim>\<open>fileInfos\<close>
  knows at the end of a run with the row ids it holds for them.
\<close>

definition fetched :: "error + History \<times> signal list \<Rightarrow> string \<Rightarrow> (int \<times> HistMessageContent) list" where
  "fetched r friendPk =
     (case r of
        Inl e \<Rightarrow> []
      | Inr (h, waiting) \<Rightarrow>
          (case getChatHistoryFromDate h friendPk 0 5000 of
             Inl e \<Rightarrow> []
           | Inr msgs \<Rightarrow> map (\<lambda>m. (hm_id m, hm_content m)) msgs))"

definition linked_transfers :: "error + History \<times> signal list \<Rightarrow> (string \<times> int) list" where
  "linked_transfers r =
     (case r of
        Inl e \<Rightarrow> []
      | Inr (h, waiting) \<Rightarrow> map (\<lambda>(fileId, info). (fileId, fi_fileId info)) (fileInfos h))"




text \<open>
  A plain search without regard to case, before the valid date 5000 in the chat with A:
  the parameters, and the query text on both sides of the phrase as the templates of
  \<^verbatim>\<open>getDateWhereFindPhrase\<close> intend it.
\<close>

definition plain_search :: ParameterSearch where
  "plain_search = \<lparr>ps_filter = OtherFilter, ps_period = OtherPeriod, ps_date = 0\<rparr>"

definition before_phrase :: string where
  "before_phrase =
     ''SELECT timestamp FROM history '' @
     ''LEFT JOIN faux_offline_pending ON history.id = faux_offline_pending.id '' @
     ''JOIN peers chat ON chat_id = chat.id '' @
     ''WHERE chat.public_key='A' AND LOWER(message) LIKE '%''"

definition after_phrase :: string where
  "after_phrase = ''%' AND timestamp < '5000' ORDER BY timestamp DESC LIMIT 1;''"

text \<open>
  A store that a later version wrote: its schema version is 2, it holds one peer, and it
  is opened by a program whose \<^verbatim>\<open>SCHEMA_VERSION\<close> is 1.
\<close>

definition too_new_db :: RawDatabase where
  "too_new_db =
     \<lparr>isOpen = True, peers_tbl = [\<lparr>p_id = 0, p_public_key = ''A''\<rparr>], aliases_tbl = [],
      history_tbl = [], file_transfers_tbl = [], faux_offline_pending_tbl = [],
      user_version = 2, changes = 0, last_insert_rowid = 0\<rparr>"

definition too_new :: History where
  "too_new = History_new (Some too_new_db)"



section \<open>The text of the insert into peers\<close>

lemma escapes_no_percent: "CHR ''%'' \<notin> set s \<Longrightarrow> escapes s = []"
  by (induction s) auto

lemma replace_escapes_no_percent: "CHR ''%'' \<notin> set s \<Longrightarrow> replace_escapes n a s = s"
  by (induction s) auto

lemma digit_index: "n < 10 \<Longrightarrow> is_digit (''0123456789'' ! n) \<and> digit_value (''0123456789'' ! n) = n"
  by (auto simp: nth_Cons' is_digit_def digit_value_def)

lemma number_nat_digits: "list_all is_digit (number_nat n) \<and> number_nat n \<noteq> []"
proof (induction n rule: number_nat.induct)
  case (1 n)
  show ?case
  proof (cases "n < 10")
    case True
    then show ?thesis using digit_index [of n] by (subst number_nat.simps, subst number_nat.simps) simp
  next
    case False
    then show ?thesis using 1 digit_index [of "n mod 10"]
      by (subst number_nat.simps, subst number_nat.simps) simp
  qed
qed

lemma number_nat_value: "foldl (\<lambda>a c. 10 * a + digit_value c) 0 (number_nat n) = n"
proof (induction n rule: number_nat.induct)
  case (1 n)
  show ?case
  proof (cases "n < 10")
    case True
    then show ?thesis using digit_index [of n] by (subst number_nat.simps) simp
  next
    case False
    then show ?thesis using 1 digit_index [of "n mod 10"]
      by (subst number_nat.simps) simp
  qed
qed

lemma sql_integer_number:
  assumes "\<not> is_digit c"
  shows "sql_integer (number i @ c # r) = Some (i, c # r)"
proof -
  have tw: "takeWhile is_digit (number_nat n @ c # r) = number_nat n" for n
    using number_nat_digits [of n] assms by (simp add: takeWhile_append2 list_all_iff)
  have dw: "dropWhile is_digit (number_nat n @ c # r) = c # r" for n
    using number_nat_digits [of n] assms by (simp add: dropWhile_append2 list_all_iff)
  have hd: "take 1 (number_nat n @ c # r) \<noteq> ''-''" for n
    using number_nat_digits [of n] by (cases "number_nat n") (auto simp: is_digit_def)
  show ?thesis
  proof (cases "i < 0")
    case True
    then show ?thesis
      using tw [of "nat (- i)"] dw [of "nat (- i)"] number_nat_digits [of "nat (- i)"]
      by (simp add: sql_integer_def number_def Let_def number_nat_value)
  next
    case False
    then show ?thesis
      using tw [of "nat i"] dw [of "nat i"] hd [of "nat i"] number_nat_digits [of "nat i"]
      by (simp add: sql_integer_def number_def Let_def number_nat_value)
  qed
qed

lemma sql_string_plain:
  assumes "CHR 0x27 \<notin> set pk" and "CHR 0x00 \<notin> set pk" and "c \<noteq> CHR 0x27"
  shows "sql_string (pk @ CHR 0x27 # c # r) = Some (pk, c # r)"
  using assms by (induction pk) auto

lemma arg_INSERT_peers:
  assumes "plain_key pk"
  shows "arg (''INSERT INTO peers (id, public_key) '' @ ''VALUES (%1, '' @ [CHR 0x27] @
              pk @ [CHR 0x27] @ '');'') a =
         ''INSERT INTO peers (id, public_key) VALUES ('' @ a @ '', '' @ [CHR 0x27] @ pk @ [CHR 0x27] @ '');''"
proof -
  have np: "CHR ''%'' \<notin> set (pk @ [CHR 0x27] @ '');'')" using assms by (simp add: plain_key_def)
  show ?thesis
    using escapes_no_percent [OF np] replace_escapes_no_percent [OF np]
    by (simp add: arg_def is_digit_def digit_value_def)
qed

lemma parse_INSERT_peers_plain:
  assumes "plain_key pk"
  shows "parse_INSERT_peers
           (arg (''INSERT INTO peers (id, public_key) '' @ ''VALUES (%1, '' @ [CHR 0x27] @
                 pk @ [CHR 0x27] @ '');'') (number i)) = Some (i, pk)"
proof -
  have a: "sql_integer (number i @ '', '' @ [CHR 0x27] @ pk @ [CHR 0x27] @ '');'') =
           Some (i, '', '' @ [CHR 0x27] @ pk @ [CHR 0x27] @ '');'')"
    using sql_integer_number [of "CHR '',''" i] by (simp add: is_digit_def)
  have b: "sql_string (pk @ [CHR 0x27] @ '');'') = Some (pk, '');'')"
    using sql_string_plain [of pk "CHR '')''" "'';''"] assms by (simp add: plain_key_def)
  show ?thesis
    unfolding arg_INSERT_peers [OF assms]
    using a b by (simp add: parse_INSERT_peers_def strip_prefix_def)
qed

section \<open>The peer cache\<close>

lemma isOpen_exec_sql: "exec_sql s d = Some d' \<Longrightarrow> isOpen d' = isOpen d"
  by (cases s) (auto split: if_splits option.splits list.splits simp: Let_def)

lemma isOpen_exec_statements: "exec_statements ss d = Some d' \<Longrightarrow> isOpen d' = isOpen d"
  by (induction ss arbitrary: d) (auto split: option.splits dest: isOpen_exec_sql)

lemma isOpen_exec_queries: "exec_queries qs d = Some (d', sigs) \<Longrightarrow> isOpen d' = isOpen d"
proof (induction qs arbitrary: d d' sigs)
  case Nil
  then show ?case by simp
next
  case (Cons q qs)
  obtain stmts cb where q: "q = (stmts, cb)" by (cases q)
  from Cons.prems q obtain d1 d2 s2 where
    a: "exec_statements stmts d = Some d1" and b: "exec_queries qs d1 = Some (d2, s2)" and c: "d' = d2"
    by (auto split: option.splits)
  from Cons.IH [OF b] isOpen_exec_statements [OF a] c show ?case by simp
qed

lemma isOpen_execLater: "isOpen (fst (execLater qs d)) = isOpen d"
  by (auto simp: execLater_def split: option.splits dest: isOpen_exec_queries)

lemma map_fst_numbered: "map fst (numbered ks) = ks"
  by (simp add: numbered_def)

lemma map_snd_numbered: "map snd (numbered ks) = map int [0..<length ks]"
  by (simp add: numbered_def)

lemma map_of_numbered_None: "map_of (numbered ks) k = None \<longleftrightarrow> k \<notin> set ks"
  using map_fst_numbered [of ks] by (metis map_of_eq_None_iff set_map)

lemma numbered_snoc: "numbered (ks @ [k]) = numbered ks @ [(k, int (length ks))]"
  by (simp add: numbered_def)

lemma update_new_key: "k \<notin> fst ` set al \<Longrightarrow> AList.update k v al = al @ [(k, v)]"
  by (induction al) auto

lemma update_numbered:
  "k \<notin> set ks \<Longrightarrow> AList.update k (int (length ks)) (numbered ks) = numbered (ks @ [k])"
  using map_fst_numbered [of ks] by (metis update_new_key numbered_snoc set_map)

lemma Max_numbered: "ks \<noteq> [] \<Longrightarrow> Max (set (map snd (numbered ks))) + 1 = int (length ks)"
proof (induction ks rule: rev_induct)
  case Nil
  then show ?case by simp
next
  case (snoc k ks)
  show ?case
  proof (cases "ks = []")
    case True
    then show ?thesis by (simp add: numbered_def)
  next
    case False
    with snoc.IH have "Max (set (map snd (numbered ks))) + 1 = int (length ks)" by simp
    moreover have "set (map snd (numbered ks)) \<noteq> {}" using False by (simp add: map_snd_numbered)
    ultimately show ?thesis by (simp add: numbered_snoc)
  qed
qed

lemma numbered_Nil_iff: "numbered ks = [] \<longleftrightarrow> ks = []"
  by (cases ks) (simp_all add: numbered_def upt_rec)

lemma getPeerId_numbered:
  "fst (snd (getPeerId (numbered ks) k)) = numbered (seen ks k)"
proof (cases "k \<in> set ks")
  case True
  then obtain i where "map_of (numbered ks) k = Some i"
    using map_of_numbered_None [of ks k] by auto
  with True show ?thesis by (simp add: getPeerId_def seen_def)
next
  case False
  then have "map_of (numbered ks) k = None" by (simp add: map_of_numbered_None)
  with False show ?thesis
    using Max_numbered [of ks] update_numbered [of k ks]
    by (cases "ks = []") (simp_all add: getPeerId_def seen_def Let_def numbered_Nil_iff)
qed

lemma peers_generateNewMessageQueries_numbered:
  "fst (generateNewMessageQueries (numbered ks) friendPk message sender time isSent dispName cb)
     = numbered (seen (seen ks friendPk) sender)"
proof -
  obtain i ps1 q1 where a: "getPeerId (numbered ks) friendPk = (i, ps1, q1)"
    by (cases "getPeerId (numbered ks) friendPk") auto
  then have ps1: "ps1 = numbered (seen ks friendPk)"
    using getPeerId_numbered [of ks friendPk] by simp
  obtain j ps2 q2 where b: "getPeerId ps1 sender = (j, ps2, q2)"
    by (cases "getPeerId ps1 sender") auto
  then have "ps2 = numbered (seen (seen ks friendPk) sender)"
    using getPeerId_numbered [of "seen ks friendPk" sender] ps1 by simp
  with a b show ?thesis by (simp add: generateNewMessageQueries_def)
qed

lemma addNewMessage_valid:
  "isValid h \<Longrightarrow> isValid (fst (addNewMessage True h friendPk message sender time isSent dispName cb))"
  using isOpen_execLater
  by (auto simp: addNewMessage_def isValid_def split: option.splits prod.splits) (metis fst_conv)

lemma addNewMessage_peers:
  "isValid h \<Longrightarrow> peers (fst (addNewMessage True h friendPk message sender time isSent dispName cb))
     = fst (generateNewMessageQueries (peers h) friendPk message sender time isSent dispName cb)"
  by (auto simp: addNewMessage_def isValid_def split: option.splits prod.splits)

lemma addNewMessages_numbered:
  "isValid h \<Longrightarrow> peers h = numbered ks \<Longrightarrow>
   peers (addNewMessages h ms) = numbered (fold (\<lambda>k acc. seen acc k) (identifiers_of ms) ks)"
proof (induction ms arbitrary: h ks)
  case Nil
  then show ?case by (simp add: addNewMessages_def identifiers_of_def)
next
  case (Cons m ms)
  let ?h1 = "fst (addNewMessage True h (m_friendPk m) (m_message m) (m_sender m) (m_time m)
                    (m_isSent m) (m_dispName m) None)"
  have v: "isValid ?h1" using Cons.prems(1) by (rule addNewMessage_valid)
  have p: "peers ?h1 = numbered (seen (seen ks (m_friendPk m)) (m_sender m))"
    using Cons.prems by (simp add: addNewMessage_peers peers_generateNewMessageQueries_numbered)
  have "addNewMessages h (m # ms) = addNewMessages ?h1 ms"
    by (simp add: addNewMessages_def)
  with Cons.IH [OF v p] show ?case by (simp add: identifiers_of_def)
qed

lemma set_seen: "set (seen acc k) = insert k (set acc)"
  by (auto simp: seen_def)

lemma distinct_seen: "distinct acc \<Longrightarrow> distinct (seen acc k)"
  by (auto simp: seen_def)

lemma fold_seen_extends: "\<exists>zs. fold (\<lambda>k acc. seen acc k) ks acc = acc @ zs"
proof (induction ks arbitrary: acc)
  case Nil
  then show ?case by simp
next
  case (Cons k ks)
  obtain zs where "fold (\<lambda>k acc. seen acc k) ks (seen acc k) = seen acc k @ zs"
    using Cons.IH by blast
  then show ?case by (auto simp: seen_def)
qed

lemma set_fold_seen: "set (fold (\<lambda>k acc. seen acc k) ks acc) = set acc \<union> set ks"
  by (induction ks arbitrary: acc) (auto simp: set_seen)

lemma distinct_fold_seen: "distinct acc \<Longrightarrow> distinct (fold (\<lambda>k acc. seen acc k) ks acc)"
  by (induction ks arbitrary: acc) (auto simp: distinct_seen)

lemma set_first_seen: "set (first_seen ks) = set ks"
  by (simp add: first_seen_def set_fold_seen)

lemma distinct_first_seen: "distinct (first_seen ks)"
  by (simp add: first_seen_def distinct_fold_seen)

lemma first_seen_append:
  "first_seen (xs @ ys) = fold (\<lambda>k acc. seen acc k) ys (first_seen xs)"
  by (simp add: first_seen_def)

lemma numbered_append:
  "numbered (xs @ ys) = numbered xs @ zip ys (map int [length xs..<length xs + length ys])"
proof -
  have "[0..<length xs + length ys] = [0..<length xs] @ [length xs..<length xs + length ys]"
    using upt_add_eq_append [of 0 "length xs" "length ys"] by simp
  then show ?thesis by (simp add: numbered_def)
qed

lemma map_of_numbered_prefix:
  "k \<in> set xs \<Longrightarrow> map_of (numbered (xs @ ys)) k = map_of (numbered xs) k"
  using map_of_numbered_None [of xs k]
  by (auto simp: numbered_append map_add_def split: option.splits)

lemma distinct_snd_numbered: "distinct (map snd (numbered ks))"
  by (simp add: map_snd_numbered distinct_map)

lemma identifiers_of_append: "identifiers_of (ms @ ms') = identifiers_of ms @ identifiers_of ms'"
  by (simp add: identifiers_of_def)

text \<open>
  C2.  On a valid store whose peer cache is empty, every sequence of
  \<^verbatim>\<open>addNewMessage\<close> calls leaves the cache as the numbering 0, 1, 2, ... of the
  identifiers in the order in which they were first seen (the friend of a call before its
  sender): the ids start at 0 and grow by one with every new identifier, no id is given
  twice, and an identifier that is seen again keeps the id it has, whatever calls follow.
  This is the claim without its last part: it holds for runs of \<^verbatim>\<open>addNewMessage\<close>
  alone, not across \<^verbatim>\<open>removeFriendHistory\<close>.
\<close>

theorem peer_ids_first_seen_order:
  assumes "isValid h" and "peers h = []"
  shows "peers (addNewMessages h ms) = numbered (first_seen (identifiers_of ms)) \<and>
         distinct (map snd (peers (addNewMessages h ms))) \<and>
         (\<forall>k \<in> set (identifiers_of ms).
            map_of (peers (addNewMessages h (ms @ ms'))) k = map_of (peers (addNewMessages h ms)) k)"
proof -
  have start: "peers h = numbered []" using assms(2) by (simp add: numbered_def)
  have all: "peers (addNewMessages h xs) = numbered (first_seen (identifiers_of xs))" for xs
    using addNewMessages_numbered [OF assms(1) start, of xs] by (simp add: first_seen_def)
  have stable: "map_of (peers (addNewMessages h (ms @ ms'))) k = map_of (peers (addNewMessages h ms)) k"
    if "k \<in> set (identifiers_of ms)" for k
  proof -
    obtain zs where "first_seen (identifiers_of (ms @ ms')) = first_seen (identifiers_of ms) @ zs"
      using fold_seen_extends [of "identifiers_of ms'" "first_seen (identifiers_of ms)"]
      by (auto simp: identifiers_of_append first_seen_append)
    moreover have "k \<in> set (first_seen (identifiers_of ms))" using that by (simp add: set_first_seen)
    ultimately show ?thesis by (simp add: all map_of_numbered_prefix)
  qed
  show ?thesis using all [of ms] stable by (simp add: distinct_snd_numbered)
qed

text \<open>
  C2, as stated, fails across \<^verbatim>\<open>removeFriendHistory\<close>: the new id is the largest
  cached id plus one, and erasing the peer that holds the largest id takes it out of the
  cache.  Friend B gets id 1, B's history is erased, and the next new friend C gets id 1
  again.
\<close>

theorem peer_id_reused_after_erase:
  "map_of (peers reuse_before) ''B'' = Some 1 \<and> map_of (peers reuse_after) ''B'' = None \<and>
   map_of (peers reuse_after) ''C'' = Some 1"
  by code_simp

text \<open>
  C2, at a concrete run: A chats with S, then B with S, then C with A, on a new store.
\<close>

theorem peer_ids_first_seen_order_witness:
  "isValid (History_new (Some fresh_db)) \<and> peers (History_new (Some fresh_db)) = [] \<and>
   peers (addNewMessages (History_new (Some fresh_db)) [chat_msg ''A'' ''S'', chat_msg ''B'' ''S''])
     = [(''A'', 0), (''S'', 1), (''B'', 2)] \<and>
   map_of (peers (addNewMessages (History_new (Some fresh_db))
                    ([chat_msg ''A'' ''S'', chat_msg ''B'' ''S''] @ [chat_msg ''C'' ''A'']))) ''S''
     = map_of (peers (addNewMessages (History_new (Some fresh_db))
                    [chat_msg ''A'' ''S'', chat_msg ''B'' ''S''])) ''S''"
proof -
  have v: "isValid (History_new (Some fresh_db))" by code_simp
  have e: "peers (History_new (Some fresh_db)) = []" by code_simp
  have n: "numbered (first_seen (identifiers_of [chat_msg ''A'' ''S'', chat_msg ''B'' ''S'']))
             = [(''A'', 0), (''S'', 1), (''B'', 2)]" by code_simp
  have m: "''S'' \<in> set (identifiers_of [chat_msg ''A'' ''S'', chat_msg ''B'' ''S''])" by code_simp
  show ?thesis
    using peer_ids_first_seen_order [OF v e, of "[chat_msg ''A'' ''S'', chat_msg ''B'' ''S'']" "[chat_msg ''C'' ''A'']"]
      v e n m by (simp del: append.simps)
qed

section \<open>What a new message writes\<close>

lemma exec_queries_append:
  "exec_queries (qs1 @ qs2) d =
     (case exec_queries qs1 d of
        None \<Rightarrow> None
      | Some (d1, s1) \<Rightarrow>
          (case exec_queries qs2 d1 of None \<Rightarrow> None | Some (d2, s2) \<Rightarrow> Some (d2, s1 @ s2)))"
  by (induction qs1 arbitrary: d) (auto split: option.splits)

lemma next_rowid_fresh: "next_rowid ids \<notin> set ids"
proof (cases "ids = []")
  case True
  then show ?thesis by simp
next
  case False
  then have "Max (set ids) + 1 \<notin> set ids"
    using Max_ge [of "set ids" "Max (set ids) + 1"] by auto
  with False show ?thesis by (simp add: next_rowid_def)
qed

lemma next_rowid_greater: "i \<in> set ids \<Longrightarrow> i < next_rowid ids"
  using Max_ge [of "set ids" i] by (auto simp: next_rowid_def)

lemma Max_plus_one_fresh: "xs \<noteq> [] \<Longrightarrow> Max (set xs) + 1 \<notin> set (xs :: int list)"
  using Max_ge [of "set xs" "Max (set xs) + 1"] by auto

lemma peers_cached_ids: "peers_cached ps d \<Longrightarrow> set (map p_id (peers_tbl d)) \<subseteq> set (map snd ps)"
  by (force simp: peers_cached_def)

lemma peers_cached_keys:
  "peers_cached ps d \<Longrightarrow> set (map p_public_key (peers_tbl d)) \<subseteq> set (map fst ps)"
  by (force simp: peers_cached_def)

lemma getPeerId_cached:
  assumes "peers_cached ps d" and "map_of ps pk = Some i"
  shows "getPeerId ps pk = (i, ps, [])"
  using assms by (simp add: getPeerId_def)

lemma exec_INSERT_peers_plain:
  assumes "plain_key pk"
  shows "exec_sql (INSERT_peers
           (arg (''INSERT INTO peers (id, public_key) '' @ ''VALUES (%1, '' @ [CHR 0x27] @
                 pk @ [CHR 0x27] @ '');'') (number i))) d =
         (if i \<in> set (map p_id (peers_tbl d)) \<or> pk \<in> set (map p_public_key (peers_tbl d))
          then None
          else Some (d\<lparr>peers_tbl := peers_tbl d @ [\<lparr>p_id = i, p_public_key = pk\<rparr>],
                       changes := 1, last_insert_rowid := i\<rparr>))"
  unfolding exec_sql.simps parse_INSERT_peers_plain [OF assms] by simp

lemma getPeerId_new:
  assumes pc: "peers_cached ps d" and new: "map_of ps pk = None" and pl: "plain_key pk"
  shows "\<exists>i qs. getPeerId ps pk = (i, ps @ [(pk, i)], qs) \<and>
             exec_queries qs d =
               Some (d\<lparr>peers_tbl := peers_tbl d @ [\<lparr>p_id = i, p_public_key = pk\<rparr>],
                        changes := 1, last_insert_rowid := i\<rparr>, []) \<and>
             peers_cached (ps @ [(pk, i)])
               (d\<lparr>peers_tbl := peers_tbl d @ [\<lparr>p_id = i, p_public_key = pk\<rparr>],
                  changes := 1, last_insert_rowid := i\<rparr>)"
proof -
  define i where "i = (if ps = [] then 0 else Max (set (map snd ps)) + 1)"
  define qs :: "Query list" where
    "qs = [([INSERT_peers
               (arg (''INSERT INTO peers (id, public_key) '' @ ''VALUES (%1, '' @ [CHR 0x27] @
                     pk @ [CHR 0x27] @ '');'') (number i))], None)]"
  have k: "pk \<notin> fst ` set ps" using new by (simp add: map_of_eq_None_iff)
  have fresh: "i \<notin> set (map snd ps)"
    using Max_plus_one_fresh [of "map snd ps"] by (cases "ps = []") (simp_all add: i_def)
  have g: "getPeerId ps pk = (i, ps @ [(pk, i)], qs)"
    using new k by (simp add: getPeerId_def i_def qs_def Let_def update_new_key)
  have ids: "i \<notin> set (map p_id (peers_tbl d))" using fresh peers_cached_ids [OF pc] by blast
  have keys: "pk \<notin> set (map p_public_key (peers_tbl d))"
    using k peers_cached_keys [OF pc] by auto
  have e: "exec_queries qs d =
             Some (d\<lparr>peers_tbl := peers_tbl d @ [\<lparr>p_id = i, p_public_key = pk\<rparr>],
                      changes := 1, last_insert_rowid := i\<rparr>, [])"
    unfolding qs_def using ids keys exec_INSERT_peers_plain [OF pl, of i d]
    by (simp del: exec_sql.simps)
  have c: "peers_cached (ps @ [(pk, i)])
             (d\<lparr>peers_tbl := peers_tbl d @ [\<lparr>p_id = i, p_public_key = pk\<rparr>],
                changes := 1, last_insert_rowid := i\<rparr>)"
    using pc k ids keys by (auto simp: peers_cached_def)
  from g e c show ?thesis by blast
qed

lemma getPeerId_step:
  assumes pc: "peers_cached ps d" and pl: "plain_key pk"
  shows "\<exists>i ps' qs d1. getPeerId ps pk = (i, ps', qs) \<and> exec_queries qs d = Some (d1, []) \<and>
           peers_cached ps' d1 \<and> map_of ps' pk = Some i \<and>
           (\<forall>k j. map_of ps k = Some j \<longrightarrow> map_of ps' k = Some j) \<and> same_but_peers d d1 \<and>
           (\<exists>new. peers_tbl d1 = peers_tbl d @ new)"
proof (cases "map_of ps pk")
  case None
  from getPeerId_new [OF pc None pl] obtain i qs where
    g: "getPeerId ps pk = (i, ps @ [(pk, i)], qs)" and
    e: "exec_queries qs d =
               Some (d\<lparr>peers_tbl := peers_tbl d @ [\<lparr>p_id = i, p_public_key = pk\<rparr>],
                        changes := 1, last_insert_rowid := i\<rparr>, [])" and
    c: "peers_cached (ps @ [(pk, i)])
               (d\<lparr>peers_tbl := peers_tbl d @ [\<lparr>p_id = i, p_public_key = pk\<rparr>],
                  changes := 1, last_insert_rowid := i\<rparr>)"
    by blast
  have m: "map_of (ps @ [(pk, i)]) pk = Some i" using None by (simp add: map_add_def)
  have k: "\<forall>k j. map_of ps k = Some j \<longrightarrow> map_of (ps @ [(pk, i)]) k = Some j"
    by (simp add: map_add_def)
  have s: "same_but_peers d (d\<lparr>peers_tbl := peers_tbl d @ [\<lparr>p_id = i, p_public_key = pk\<rparr>],
                  changes := 1, last_insert_rowid := i\<rparr>)"
    by (simp add: same_but_peers_def)
  have n: "\<exists>new. peers_tbl (d\<lparr>peers_tbl := peers_tbl d @ [\<lparr>p_id = i, p_public_key = pk\<rparr>],
                  changes := 1, last_insert_rowid := i\<rparr>) = peers_tbl d @ new"
    by simp
  from g e c m k s n show ?thesis by blast
next
  case (Some i)
  have "getPeerId ps pk = (i, ps, [])" using Some by (simp add: getPeerId_def)
  moreover have "exec_queries [] d = Some (d, [])" by simp
  moreover have "same_but_peers d d" by (simp add: same_but_peers_def)
  moreover have "\<exists>new. peers_tbl d = peers_tbl d @ new" by simp
  ultimately show ?thesis using pc Some by blast
qed

lemma find_append_Some: "find P xs = Some a \<Longrightarrow> find P (xs @ ys) = Some a"
  by (induction xs) (auto split: if_splits)

lemma find_append_None: "find P xs = None \<Longrightarrow> find P (xs @ ys) = find P ys"
  by (induction xs) (auto split: if_splits)

lemma find_None_alias:
  "(find (\<lambda>a. a_owner a = s \<and> a_display_name a = n) as = None) =
   ((s, n) \<notin> set (map (\<lambda>a. (a_owner a, a_display_name a)) as))"
  by (induction as) auto

lemma find_Some_set: "find P xs = Some a \<Longrightarrow> a \<in> set xs \<and> P a"
  by (induction xs) (auto split: if_splits)

text \<open>The alias insert followed by the history insert.\<close>

lemma alias_history_exec:
  assumes da: "distinct (map a_id (aliases_tbl d))"
  shows "\<exists>d4 a new. exec_queries [([INSERT_OR_IGNORE_aliases s n], None),
                         ([INSERT_history t p m s n], cb)] d =
             Some (d4, (case cb of None \<Rightarrow> [] | Some c \<Rightarrow> [run_callback c (next_rowid (map h_id (history_tbl d)))])) \<and>
           history_tbl d4 = history_tbl d @
             [\<lparr>h_id = next_rowid (map h_id (history_tbl d)), h_timestamp = t, h_chat_id = p,
               h_sender_alias = a_id a, h_message = m, h_file_id = None\<rparr>] \<and>
           find (\<lambda>a. a_owner a = s \<and> a_display_name a = n) (aliases_tbl d4) = Some a \<and>
           aliases_tbl d4 = aliases_tbl d @ new \<and>
           distinct (map a_id (aliases_tbl d4)) \<and>
           last_insert_rowid d4 = next_rowid (map h_id (history_tbl d)) \<and>
           peers_tbl d4 = peers_tbl d \<and> file_transfers_tbl d4 = file_transfers_tbl d \<and>
           faux_offline_pending_tbl d4 = faux_offline_pending_tbl d \<and>
           isOpen d4 = isOpen d \<and> user_version d4 = user_version d"
proof (cases "find (\<lambda>a. a_owner a = s \<and> a_display_name a = n) (aliases_tbl d)")
  case None
  let ?a = "\<lparr>a_id = next_rowid (map a_id (aliases_tbl d)), a_owner = s, a_display_name = n\<rparr>"
  have notin: "(s, n) \<notin> set (map (\<lambda>a. (a_owner a, a_display_name a)) (aliases_tbl d))"
    using None by (simp add: find_None_alias)
  have f: "find (\<lambda>a. a_owner a = s \<and> a_display_name a = n) (aliases_tbl d @ [?a]) = Some ?a"
    using None by (simp add: find_append_None)
  have dd: "distinct (map a_id (aliases_tbl d @ [?a]))"
    using da next_rowid_fresh [of "map a_id (aliases_tbl d)"] by simp
  show ?thesis
    apply (rule exI [of _ "d\<lparr>aliases_tbl := aliases_tbl d @ [?a],
             history_tbl := history_tbl d @
               [\<lparr>h_id = next_rowid (map h_id (history_tbl d)), h_timestamp = t, h_chat_id = p,
                 h_sender_alias = a_id ?a, h_message = m, h_file_id = None\<rparr>],
             changes := 1, last_insert_rowid := next_rowid (map h_id (history_tbl d))\<rparr>"])
    apply (rule exI [of _ ?a])
    apply (rule exI [of _ "[?a]"])
    using notin f dd by (simp add: Let_def split: option.splits)
next
  case (Some a)
  have isin: "(s, n) \<in> set (map (\<lambda>a. (a_owner a, a_display_name a)) (aliases_tbl d))"
    using Some find_None_alias [of s n "aliases_tbl d"] by auto
  show ?thesis
    apply (rule exI [of _ "d\<lparr>history_tbl := history_tbl d @
               [\<lparr>h_id = next_rowid (map h_id (history_tbl d)), h_timestamp = t, h_chat_id = p,
                 h_sender_alias = a_id a, h_message = m, h_file_id = None\<rparr>],
             changes := 1, last_insert_rowid := next_rowid (map h_id (history_tbl d))\<rparr>"])
    apply (rule exI [of _ a])
    apply (rule exI [of _ "[]"])
    using isin Some da by (simp add: Let_def split: option.splits)
qed

lemma peers_cached_cong: "peers_tbl d' = peers_tbl d \<Longrightarrow> peers_cached ps d' = peers_cached ps d"
  by (simp add: peers_cached_def)

lemma addNewMessage_effect:
  assumes c: "consistent h" and d: "db h = Some d"
    and pf: "plain_key friendPk" and psd: "plain_key sender"
  shows "\<exists>d' ps' a.
     addNewMessage True h friendPk msg sender time isSent dispName cb =
       (h\<lparr>db := Some d', peers := ps'\<rparr>,
        (case cb of None \<Rightarrow> []
         | Some f \<Rightarrow> [run_callback f (next_rowid (map h_id (history_tbl d)))])) \<and>
     consistent (h\<lparr>db := Some d', peers := ps'\<rparr>) \<and>
     (\<forall>k j. map_of (peers h) k = Some j \<longrightarrow> map_of ps' k = Some j) \<and>
     (\<exists>peerId senderId.
        map_of ps' friendPk = Some peerId \<and> map_of ps' sender = Some senderId \<and>
        history_tbl d' = history_tbl d @
          [\<lparr>h_id = next_rowid (map h_id (history_tbl d)), h_timestamp = time,
            h_chat_id = peerId, h_sender_alias = a_id a, h_message = msg, h_file_id = None\<rparr>] \<and>
        find (\<lambda>a. a_owner a = senderId \<and> a_display_name a = dispName) (aliases_tbl d') = Some a) \<and>
     (\<exists>new. aliases_tbl d' = aliases_tbl d @ new) \<and>
     (\<exists>new. peers_tbl d' = peers_tbl d @ new) \<and>
     faux_offline_pending_tbl d' = faux_offline_pending_tbl d @
       (if isSent then [] else [next_rowid (map h_id (history_tbl d))]) \<and>
     file_transfers_tbl d' = file_transfers_tbl d \<and> user_version d' = user_version d"
proof -
  let ?mid = "next_rowid (map h_id (history_tbl d))"
  from c d have op: "isOpen d" and pc: "peers_cached (peers h) d"
    and da: "distinct (map a_id (aliases_tbl d))" and dh: "distinct (map h_id (history_tbl d))"
    and df: "distinct (map f_id (file_transfers_tbl d))"
    and dp: "distinct (faux_offline_pending_tbl d)"
    and sub: "set (faux_offline_pending_tbl d) \<subseteq> set (map h_id (history_tbl d))"
    by (simp_all add: consistent_def)
  from getPeerId_step [OF pc pf] obtain peerId ps1 qs1 d1 new1 where
    g1: "getPeerId (peers h) friendPk = (peerId, ps1, qs1)" and
    e1: "exec_queries qs1 d = Some (d1, [])" and pc1: "peers_cached ps1 d1" and
    m1: "map_of ps1 friendPk = Some peerId" and
    k1: "\<forall>k j. map_of (peers h) k = Some j \<longrightarrow> map_of ps1 k = Some j" and
    s1: "same_but_peers d d1" and n1: "peers_tbl d1 = peers_tbl d @ new1"
    by blast
  from getPeerId_step [OF pc1 psd] obtain senderId ps2 qs2 d2 new2 where
    g2: "getPeerId ps1 sender = (senderId, ps2, qs2)" and
    e2: "exec_queries qs2 d1 = Some (d2, [])" and pc2: "peers_cached ps2 d2" and
    m2: "map_of ps2 sender = Some senderId" and
    k2: "\<forall>k j. map_of ps1 k = Some j \<longrightarrow> map_of ps2 k = Some j" and
    s2: "same_but_peers d1 d2" and n2: "peers_tbl d2 = peers_tbl d1 @ new2"
    by blast
  have same: "isOpen d2 = isOpen d" "aliases_tbl d2 = aliases_tbl d" "history_tbl d2 = history_tbl d"
    "file_transfers_tbl d2 = file_transfers_tbl d"
    "faux_offline_pending_tbl d2 = faux_offline_pending_tbl d" "user_version d2 = user_version d"
    using s1 s2 by (simp_all add: same_but_peers_def)
  have da2: "distinct (map a_id (aliases_tbl d2))" using da same by simp
  from alias_history_exec [OF da2, of senderId dispName time peerId msg cb] obtain d4 a new where
    e4': "exec_queries [([INSERT_OR_IGNORE_aliases senderId dispName], None),
                       ([INSERT_history time peerId msg senderId dispName], cb)] d2 =
           Some (d4, (case cb of None \<Rightarrow> []
                      | Some c \<Rightarrow> [run_callback c (next_rowid (map h_id (history_tbl d2)))]))" and
    h4': "history_tbl d4 = history_tbl d2 @
           [\<lparr>h_id = next_rowid (map h_id (history_tbl d2)), h_timestamp = time, h_chat_id = peerId,
             h_sender_alias = a_id a, h_message = msg, h_file_id = None\<rparr>]" and
    f4: "find (\<lambda>a. a_owner a = senderId \<and> a_display_name a = dispName) (aliases_tbl d4) = Some a" and
    a4': "aliases_tbl d4 = aliases_tbl d2 @ new" and
    da4: "distinct (map a_id (aliases_tbl d4))" and
    l4': "last_insert_rowid d4 = next_rowid (map h_id (history_tbl d2))" and
    r4': "peers_tbl d4 = peers_tbl d2" "file_transfers_tbl d4 = file_transfers_tbl d2"
        "faux_offline_pending_tbl d4 = faux_offline_pending_tbl d2" "isOpen d4 = isOpen d2"
        "user_version d4 = user_version d2"
    by blast
  have e4: "exec_queries [([INSERT_OR_IGNORE_aliases senderId dispName], None),
                       ([INSERT_history time peerId msg senderId dispName], cb)] d2 =
           Some (d4, (case cb of None \<Rightarrow> [] | Some f \<Rightarrow> [run_callback f ?mid]))"
    using e4' unfolding same(3) .
  have h4: "history_tbl d4 = history_tbl d @
           [\<lparr>h_id = ?mid, h_timestamp = time, h_chat_id = peerId,
             h_sender_alias = a_id a, h_message = msg, h_file_id = None\<rparr>]"
    using h4' same(3) by simp
  have a4: "aliases_tbl d4 = aliases_tbl d @ new" using a4' same(2) by simp
  have l4: "last_insert_rowid d4 = ?mid" using l4' same(3) by simp
  have r4: "peers_tbl d4 = peers_tbl d2" "file_transfers_tbl d4 = file_transfers_tbl d"
        "faux_offline_pending_tbl d4 = faux_offline_pending_tbl d" "isOpen d4 = isOpen d"
        "user_version d4 = user_version d"
    using r4' same by simp_all
  have fresh: "?mid \<notin> set (map h_id (history_tbl d))" by (rule next_rowid_fresh)
  then have fresh': "?mid \<notin> set (faux_offline_pending_tbl d)" using sub by auto
  define d5 where "d5 = (if isSent then d4
     else d4\<lparr>faux_offline_pending_tbl := faux_offline_pending_tbl d4 @ [?mid], changes := 1\<rparr>)"
  have e5: "exec_queries (if \<not> isSent then [([INSERT_faux_offline_pending], None)] else []) d4 =
              Some (d5, [])"
    using fresh' l4 r4 by (simp add: d5_def)
  have total: "exec_queries (qs1 @ qs2 @
                 [([INSERT_OR_IGNORE_aliases senderId dispName], None),
                  ([INSERT_history time peerId msg senderId dispName], cb)] @
                 (if \<not> isSent then [([INSERT_faux_offline_pending], None)] else [])) d =
               Some (d5, (case cb of None \<Rightarrow> [] | Some f \<Rightarrow> [run_callback f ?mid]))"
    using e1 e2 e4 e5 by (simp only: exec_queries_append option.case prod.case append_Nil append_Nil2)
  have gen: "generateNewMessageQueries (peers h) friendPk msg sender time isSent dispName cb =
               (ps2, qs1 @ qs2 @
                 [([INSERT_OR_IGNORE_aliases senderId dispName], None),
                  ([INSERT_history time peerId msg senderId dispName], cb)] @
                 (if \<not> isSent then [([INSERT_faux_offline_pending], None)] else []))"
    using g1 g2 by (simp add: generateNewMessageQueries_def)
  have res: "addNewMessage True h friendPk msg sender time isSent dispName cb =
       (h\<lparr>db := Some d5, peers := ps2\<rparr>,
        (case cb of None \<Rightarrow> [] | Some f \<Rightarrow> [run_callback f ?mid]))"
    using d op gen total by (simp add: addNewMessage_def execLater_def)
  have t5: "history_tbl d5 = history_tbl d4" "aliases_tbl d5 = aliases_tbl d4"
    "peers_tbl d5 = peers_tbl d4" "file_transfers_tbl d5 = file_transfers_tbl d4"
    "isOpen d5 = isOpen d4" "user_version d5 = user_version d4"
    "faux_offline_pending_tbl d5 = faux_offline_pending_tbl d @ (if isSent then [] else [?mid])"
    using r4 by (simp_all add: d5_def)
  have pc5: "peers_cached ps2 d5"
    using pc2 peers_cached_cong [of d5 d2 ps2] t5(3) r4(1) by simp
  have cons: "consistent (h\<lparr>db := Some d5, peers := ps2\<rparr>)"
    using op pc5 da4 dh df dp sub fresh fresh' t5 r4 h4
    by (auto simp: consistent_def)
  have keep: "\<forall>k j. map_of (peers h) k = Some j \<longrightarrow> map_of ps2 k = Some j"
    using k1 k2 by blast
  have mf: "map_of ps2 friendPk = Some peerId" using m1 k2 by blast
  have pt: "\<exists>new. peers_tbl d5 = peers_tbl d @ new" using n1 n2 t5 r4 by simp
  have at: "\<exists>new. aliases_tbl d5 = aliases_tbl d @ new" using a4 t5 by simp
  show ?thesis
    apply (rule exI [of _ d5])
    apply (rule exI [of _ ps2])
    apply (rule exI [of _ a])
    using res cons keep mf m2 h4 f4 at pt t5 r4 by simp
qed

text \<open>
  A public key that is not plain is not stored as it is.  With a quote in a new key the
  text of the insert does not compile and the batch fails: the cache has the key, the
  database has no row of the message, and the insert callback does not run.  With the
  place marker \<^verbatim>\<open>%1\<close> in a new key the id is substituted into the key, and the row of
  \<^verbatim>\<open>peers\<close> holds another key than the cache.
\<close>

lemma key_with_quote_is_not_written:
  "addNewMessage True (History_new (Some fresh_db)) ''A'B'' ''hi'' ''A'B'' 1000 False ''name''
     (Some callerCallback) =
   ((History_new (Some fresh_db))\<lparr>peers := [(''A'B'', 0)]\<rparr>, [])"
  by code_simp

lemma key_with_marker_is_changed:
  "map_option peers_tbl
     (db (fst (addNewMessage True (History_new (Some fresh_db)) ''A%1'' ''hi'' ''A%1'' 1000 False
                 ''name'' (Some callerCallback)))) =
     Some [\<lparr>p_id = 0, p_public_key = ''A0''\<rparr>] \<and>
   peers (fst (addNewMessage True (History_new (Some fresh_db)) ''A%1'' ''hi'' ''A%1'' 1000 False
                 ''name'' (Some callerCallback))) = [(''A%1'', 0)]"
  by code_simp

section \<open>Pending markers\<close>

lemma markAsSent_open:
  "db h = Some d \<Longrightarrow> isOpen d \<Longrightarrow>
   markAsSent h messageId =
     h\<lparr>db := Some (d\<lparr>faux_offline_pending_tbl := filter (\<lambda>m. m \<noteq> messageId) (faux_offline_pending_tbl d),
                      changes := length (filter (\<lambda>m. m = messageId) (faux_offline_pending_tbl d))\<rparr>)\<rparr>"
  by (simp add: markAsSent_def execLater_def)



lemma markAsSent_other:
  "other \<noteq> messageId \<Longrightarrow> pending (markAsSent h other) messageId = pending h messageId"
  by (cases "db h") (auto simp: markAsSent_def execLater_def pending_def)





















section \<open>Aliases\<close>

lemma find_fresh_snoc:
  "\<forall>x \<in> set xs. \<not> P x \<Longrightarrow> P y \<Longrightarrow> find P (xs @ y # ys) = Some y"
  by (induction xs) auto

lemma distinct_map_eq:
  "distinct (map f xs) \<Longrightarrow> x \<in> set xs \<Longrightarrow> y \<in> set xs \<Longrightarrow> f x = f y \<Longrightarrow> x = y"
  by (meson distinct_map inj_onD)

text \<open>
  C4.  On a consistent store, two messages of one sender are added, each with the insert
  callback that reports its id.  The public keys are plain: the text of the insert into
  \<^verbatim>\<open>peers\<close> carries a new key between quotes as it is, and a key with a quote or a
  place marker is not stored as it is.  The row of each message carries the id of the alias row
  of (sender, display name): the value of the \<^verbatim>\<open>CASE WHEN changes() IS 0 THEN (SELECT
  id FROM aliases WHERE owner=... AND display_name=?) ELSE last_insert_rowid() END\<close>
  expression after the \<^verbatim>\<open>INSERT OR IGNORE\<close> is that id in both of its branches.  The
  two messages carry the same alias id exactly when their display names are the same.
\<close>

theorem alias_id_by_sender_and_display_name:
  assumes c: "consistent h"
    and psd: "plain_key sender" and pk1: "plain_key friendPk1" and pk2: "plain_key friendPk2"
  shows "\<exists>h1 id1 h2 id2 alias1 alias2.
     addNewMessage True h friendPk1 msg1 sender time1 isSent1 dispName1 (Some callerCallback) =
       (h1, [callerNotified id1]) \<and>
     addNewMessage True h1 friendPk2 msg2 sender time2 isSent2 dispName2 (Some callerCallback) =
       (h2, [callerNotified id2]) \<and>
     sender_alias_of h1 id1 = Some alias1 \<and> alias_of h1 sender dispName1 = Some alias1 \<and>
     sender_alias_of h2 id1 = Some alias1 \<and> alias_of h2 sender dispName1 = Some alias1 \<and>
     sender_alias_of h2 id2 = Some alias2 \<and> alias_of h2 sender dispName2 = Some alias2 \<and>
     (alias1 = alias2) = (dispName1 = dispName2)"
proof -
  from c obtain d where d: "db h = Some d" by (auto simp: consistent_def split: option.splits)
  let ?id1 = "next_rowid (map h_id (history_tbl d))"
  from addNewMessage_effect [OF c d pk1 psd, of msg1 time1 isSent1 dispName1
      "Some callerCallback"]
  obtain d1 ps1 a1 p1 s1 where
    r1: "addNewMessage True h friendPk1 msg1 sender time1 isSent1 dispName1 (Some callerCallback) =
          (h\<lparr>db := Some d1, peers := ps1\<rparr>, [callerNotified ?id1])" and
    c1: "consistent (h\<lparr>db := Some d1, peers := ps1\<rparr>)" and
    m1: "map_of ps1 sender = Some s1" and
    h1: "history_tbl d1 = history_tbl d @
          [\<lparr>h_id = ?id1, h_timestamp = time1, h_chat_id = p1, h_sender_alias = a_id a1,
            h_message = msg1, h_file_id = None\<rparr>]" and
    f1: "find (\<lambda>a. a_owner a = s1 \<and> a_display_name a = dispName1) (aliases_tbl d1) = Some a1"
    by auto
  let ?h1 = "h\<lparr>db := Some d1, peers := ps1\<rparr>"
  let ?id2 = "next_rowid (map h_id (history_tbl d1))"
  have d1: "db ?h1 = Some d1" by simp
  from addNewMessage_effect [OF c1 d1 pk2 psd, of msg2 time2 isSent2 dispName2
      "Some callerCallback"]
  obtain d2 ps2 a2 p2 s2 new where
    r2: "addNewMessage True ?h1 friendPk2 msg2 sender time2 isSent2 dispName2 (Some callerCallback) =
          (?h1\<lparr>db := Some d2, peers := ps2\<rparr>, [callerNotified ?id2])" and
    c2: "consistent (?h1\<lparr>db := Some d2, peers := ps2\<rparr>)" and
    k2: "\<forall>k j. map_of (peers ?h1) k = Some j \<longrightarrow> map_of ps2 k = Some j" and
    m2: "map_of ps2 sender = Some s2" and
    h2: "history_tbl d2 = history_tbl d1 @
          [\<lparr>h_id = ?id2, h_timestamp = time2, h_chat_id = p2, h_sender_alias = a_id a2,
            h_message = msg2, h_file_id = None\<rparr>]" and
    f2: "find (\<lambda>a. a_owner a = s2 \<and> a_display_name a = dispName2) (aliases_tbl d2) = Some a2" and
    n2: "aliases_tbl d2 = aliases_tbl d1 @ new"
    by auto
  let ?h2 = "?h1\<lparr>db := Some d2, peers := ps2\<rparr>"
  have s: "s2 = s1" using k2 m1 m2 by simp
  have fr1: "\<forall>r \<in> set (history_tbl d). h_id r \<noteq> ?id1"
    using next_rowid_fresh [of "map h_id (history_tbl d)"] by force
  have fr2: "\<forall>r \<in> set (history_tbl d1). h_id r \<noteq> ?id2"
    using next_rowid_fresh [of "map h_id (history_tbl d1)"] by force
  have sa1: "sender_alias_of ?h1 ?id1 = Some (a_id a1)"
    using h1 find_fresh_snoc [OF fr1, of _ "[]"] by (simp add: sender_alias_of_def)
  have sa1': "sender_alias_of ?h2 ?id1 = Some (a_id a1)"
    using h1 h2 find_fresh_snoc [OF fr1] by (simp add: sender_alias_of_def)
  have sa2: "sender_alias_of ?h2 ?id2 = Some (a_id a2)"
    using h2 find_fresh_snoc [OF fr2, of _ "[]"] by (simp add: sender_alias_of_def)
  have al1: "alias_of ?h1 sender dispName1 = Some (a_id a1)"
    using m1 f1 by (simp add: alias_of_def)
  have f1': "find (\<lambda>a. a_owner a = s1 \<and> a_display_name a = dispName1) (aliases_tbl d2) = Some a1"
    using f1 n2 by (simp add: find_append_Some)
  have al1': "alias_of ?h2 sender dispName1 = Some (a_id a1)"
    using m2 s f1' by (simp add: alias_of_def)
  have al2: "alias_of ?h2 sender dispName2 = Some (a_id a2)"
    using m2 f2 by (simp add: alias_of_def)
  have da: "distinct (map a_id (aliases_tbl d2))" using c2 by (simp add: consistent_def)
  have in1: "a1 \<in> set (aliases_tbl d2) \<and> a_display_name a1 = dispName1"
    using find_Some_set [OF f1'] by simp
  have in2: "a2 \<in> set (aliases_tbl d2) \<and> a_display_name a2 = dispName2"
    using find_Some_set [OF f2] by simp
  have iff: "(a_id a1 = a_id a2) = (dispName1 = dispName2)"
  proof
    assume "a_id a1 = a_id a2"
    then have "a1 = a2" using distinct_map_eq [OF da] in1 in2 by blast
    then show "dispName1 = dispName2" using in1 in2 by simp
  next
    assume "dispName1 = dispName2"
    then show "a_id a1 = a_id a2" using f1' f2 s by simp
  qed
  show ?thesis
    apply (rule exI [of _ ?h1])
    apply (rule exI [of _ ?id1])
    apply (rule exI [of _ ?h2])
    apply (rule exI [of _ ?id2])
    apply (rule exI [of _ "a_id a1"])
    apply (rule exI [of _ "a_id a2"])
    using r1 r2 sa1 sa1' sa2 al1 al1' al2 iff by simp
qed

text \<open>
  C4, on a new store: the names alice and ally of sender A get different alias ids, and a
  second message under the name alice carries alias id 1 again.
\<close>

theorem alias_id_by_sender_and_display_name_witness:
  "consistent (History_new (Some fresh_db)) \<and> plain_key ''A'' \<and>
   (\<exists>h1 id1 h2 id2 alias1 alias2.
     addNewMessage True (History_new (Some fresh_db)) ''A'' ''hi'' ''A'' 1000 True ''alice''
       (Some callerCallback) = (h1, [callerNotified id1]) \<and>
     addNewMessage True h1 ''A'' ''again'' ''A'' 2000 True ''ally'' (Some callerCallback) =
       (h2, [callerNotified id2]) \<and>
     sender_alias_of h2 id1 = Some alias1 \<and> alias_of h2 ''A'' ''alice'' = Some alias1 \<and>
     sender_alias_of h2 id2 = Some alias2 \<and> alias_of h2 ''A'' ''ally'' = Some alias2 \<and>
     alias1 \<noteq> alias2) \<and>
   sender_alias_of
     (fst (addNewMessage True
        (fst (addNewMessage True (History_new (Some fresh_db)) ''A'' ''hi'' ''A'' 1000 True ''alice''
                (Some callerCallback)))
        ''A'' ''again'' ''A'' 2000 True ''alice'' (Some callerCallback))) 2 = Some 1"
proof -
  have c: "consistent (History_new (Some fresh_db))" by code_simp
  have e: "sender_alias_of
     (fst (addNewMessage True
        (fst (addNewMessage True (History_new (Some fresh_db)) ''A'' ''hi'' ''A'' 1000 True ''alice''
                (Some callerCallback)))
        ''A'' ''again'' ''A'' 2000 True ''alice'' (Some callerCallback))) 2 = Some 1" by code_simp
  have k: "plain_key ''A''" by (simp add: plain_key_def)
  have n: "''alice'' \<noteq> ''ally''" by simp
  from alias_id_by_sender_and_display_name [OF c k k k, of "''hi''" 1000 True "''alice''"
      "''again''" 2000 True "''ally''"] n
  have "\<exists>h1 id1 h2 id2 alias1 alias2.
     addNewMessage True (History_new (Some fresh_db)) ''A'' ''hi'' ''A'' 1000 True ''alice''
       (Some callerCallback) = (h1, [callerNotified id1]) \<and>
     addNewMessage True h1 ''A'' ''again'' ''A'' 2000 True ''ally'' (Some callerCallback) =
       (h2, [callerNotified id2]) \<and>
     sender_alias_of h2 id1 = Some alias1 \<and> alias_of h2 ''A'' ''alice'' = Some alias1 \<and>
     sender_alias_of h2 id2 = Some alias2 \<and> alias_of h2 ''A'' ''ally'' = Some alias2 \<and>
     alias1 \<noteq> alias2"
    by blast
  with c k e show ?thesis by blast
qed

section \<open>The most recent messages\<close>






lemma hm_id_rowCallback: "hm_id (rowCallback row) = r_history_id row"
  by (simp add: rowCallback_def Let_def split: option.splits)






section \<open>Linking a message to its file transfer\<close>

text \<open>
  C1.  The claim is that the order of \<^verbatim>\<open>onFileInserted\<close> and
  \<^verbatim>\<open>setFileFinished\<close> does not matter for the final row of
  \<^verbatim>\<open>file_transfers\<close>.  The code does not do that.  When the end of the transfer is
  reported first, \<^verbatim>\<open>setFileFinished\<close> stores the outcome in
  \<^verbatim>\<open>fileInfos[fileId]\<close> and then removes that entry again
  (\<^verbatim>\<open>fileInfos.remove(fileId)\<close> runs for both branches), so
  \<^verbatim>\<open>onFileInserted\<close> finds a default entry, takes the transfer for unfinished and
  never queues the finishing update: the row stays as it was inserted.  The link
  \<^verbatim>\<open>history.file_id\<close> is the same in all orders.
\<close>

theorem file_linking_depends_on_order:
  "file_rows finished_last =
     [\<lparr>f_id = 1, f_chat_id = 0, f_file_restart_id = ''session'', f_file_name = ''f.txt'',
       f_file_path = ''/x'', f_file_hash = ''hash'', f_file_size = 42, f_direction = SENDING,
       f_file_state = FINISHED\<rparr>] \<and>
   file_rows finished_before_inserted =
     [\<lparr>f_id = 1, f_chat_id = 0, f_file_restart_id = ''session'', f_file_name = ''f.txt'',
       f_file_path = ''/tmp/f.txt'', f_file_hash = [], f_file_size = 42, f_direction = SENDING,
       f_file_state = CANCELED\<rparr>] \<and>
   file_rows finished_first = file_rows finished_before_inserted \<and>
   map h_file_id (history_rows finished_last) = [Some 1] \<and>
   map h_file_id (history_rows finished_before_inserted) = [Some 1] \<and>
   map h_file_id (history_rows finished_first) = [Some 1]"
  by code_simp

section \<open>The state of a new file transfer\<close>

lemma peers_cached_qhash_index:
  assumes "peers_cached ps d"
  shows "peers_cached (snd (qhash_index ps k v)) d"
proof (cases "map_of ps k")
  case None
  then have "k \<notin> fst ` set ps" by (simp add: map_of_eq_None_iff)
  then have "AList.update k v ps = ps @ [(k, v)]" by (rule update_new_key)
  with None assms show ?thesis
    using \<open>k \<notin> fst ` set ps\<close> by (auto simp: qhash_index_def peers_cached_def)
next
  case (Some i)
  with assms show ?thesis by (simp add: qhash_index_def)
qed

lemma onFileInsertionReady_effect:
  assumes d: "db h = Some d" and op: "isOpen d"
  shows "\<exists>d'. onFileInsertionReady h insertionData =
           Inr (h\<lparr>db := Some d', peers := snd (qhash_index (peers h) (ins_friendPk insertionData) 0)\<rparr>,
                [fileInserted (next_rowid (map f_id (file_transfers_tbl d))) (ins_fileId insertionData)]) \<and>
         file_transfers_tbl d' = file_transfers_tbl d @
           [\<lparr>f_id = next_rowid (map f_id (file_transfers_tbl d)),
             f_chat_id = fst (qhash_index (peers h) (ins_friendPk insertionData) 0),
             f_file_restart_id = ins_fileId insertionData, f_file_name = ins_fileName insertionData,
             f_file_path = ins_filePath insertionData, f_file_hash = [],
             f_file_size = ins_size insertionData, f_direction = ins_direction insertionData,
             f_file_state = CANCELED\<rparr>] \<and>
         history_tbl d' =
           map (\<lambda>r. if h_id r = ins_historyId insertionData
                    then r\<lparr>h_file_id := Some (next_rowid (map f_id (file_transfers_tbl d)))\<rparr>
                    else r) (history_tbl d) \<and>
         peers_tbl d' = peers_tbl d \<and> aliases_tbl d' = aliases_tbl d \<and>
         faux_offline_pending_tbl d' = faux_offline_pending_tbl d \<and>
         isOpen d' \<and> user_version d' = user_version d"
  using d op
  apply (simp add: onFileInsertionReady_def execLater_def Let_def case_prod_beta)
  apply (rule exI)
  apply (rule conjI)
   apply (rule refl)
  apply simp
  done

lemma in_set_map_filter:
  "y \<in> set (List.map_filter f xs) \<longleftrightarrow> (\<exists>x \<in> set xs. f x = Some y)"
  by (induction xs) (auto simp: List.map_filter_simps split: option.splits)

lemma select_chat_history_row:
  assumes "row \<in> set (select_chat_history d fromMs toMs friendPk)"
  shows "\<exists>r \<in> set (history_tbl d). r_history_id row = h_id r \<and>
           r_file_transfers row =
             (case h_file_id r of None \<Rightarrow> None
              | Some i \<Rightarrow> find (\<lambda>f. f_id f = i) (file_transfers_tbl d))"
proof -
  from assms obtain r where r: "r \<in> set (history_tbl d)" and
    s: "(case find (\<lambda>p. p_id p = h_chat_id r) (peers_tbl d) of
               None \<Rightarrow> None
             | Some chat \<Rightarrow>
                 (case find (\<lambda>a. a_id a = h_sender_alias r) (aliases_tbl d) of
                    None \<Rightarrow> None
                  | Some alias \<Rightarrow>
                      (case find (\<lambda>p. p_id p = a_owner alias) (peers_tbl d) of
                         None \<Rightarrow> None
                       | Some sender \<Rightarrow>
                           if fromMs \<le> h_timestamp r \<and> h_timestamp r \<le> toMs \<and>
                              p_public_key chat = friendPk
                           then Some
                             \<lparr>r_history_id = h_id r,
                              r_faux_offline_pending_id =
                                find (\<lambda>m. m = h_id r) (faux_offline_pending_tbl d),
                              r_timestamp = h_timestamp r,
                              r_chat_public_key = p_public_key chat,
                              r_display_name = a_display_name alias,
                              r_sender_public_key = p_public_key sender,
                              r_message = h_message r,
                              r_file_transfers =
                                (case h_file_id r of
                                   None \<Rightarrow> None
                                 | Some i \<Rightarrow> find (\<lambda>f. f_id f = i) (file_transfers_tbl d))\<rparr>
                           else None))) = Some row"
    unfolding select_chat_history_def in_set_map_filter by blast
  from s have "r_history_id row = h_id r \<and>
           r_file_transfers row =
             (case h_file_id r of None \<Rightarrow> None
              | Some i \<Rightarrow> find (\<lambda>f. f_id f = i) (file_transfers_tbl d))"
    by (auto split: option.splits if_splits)
  with r show ?thesis by blast
qed

lemma getChatHistory_rows:
  assumes "db h = Some d" and "getChatHistory h friendPk fromMs toMs n = Inr msgs" and "m \<in> set msgs"
  shows "\<exists>row \<in> set (select_chat_history d fromMs toMs friendPk). m = rowCallback row"
proof -
  have "set (sql_limit n xs) \<subseteq> set xs" for xs :: "chat_history_row list"
    by (auto simp: sql_limit_def dest: in_set_takeD)
  then have "set (sort_key r_history_id (sql_limit n (rev (sort_key r_history_id
               (select_chat_history d fromMs toMs friendPk)))))
             \<subseteq> set (select_chat_history d fromMs toMs friendPk)"
    by fastforce
  with assms show ?thesis
    by (fastforce simp: getChatHistory_def split: if_splits)
qed

lemma fetch_reports_canceled:
  assumes d: "db h = Some d" and l: "links_canceled d historyId"
    and g: "getChatHistory h friendPk fromMs toMs n = Inr msgs" and m: "m \<in> set msgs"
    and i: "hm_id m = historyId"
  shows "\<exists>f. hm_content m = FileContent f \<and> tf_status f = CANCELED"
proof -
  from getChatHistory_rows [OF d g m] obtain row where
    row: "row \<in> set (select_chat_history d fromMs toMs friendPk)" and mr: "m = rowCallback row"
    by blast
  from select_chat_history_row [OF row] obtain r where
    r: "r \<in> set (history_tbl d)" and rid: "r_history_id row = h_id r" and
    rf: "r_file_transfers row =
           (case h_file_id r of None \<Rightarrow> None
            | Some i \<Rightarrow> find (\<lambda>f. f_id f = i) (file_transfers_tbl d))"
    by blast
  have "h_id r = historyId" using i mr rid by (simp add: hm_id_rowCallback)
  with l r obtain j frow where "h_file_id r = Some j"
    and "find (\<lambda>f. f_id f = j) (file_transfers_tbl d) = Some frow" and "f_file_state frow = CANCELED"
    by (auto simp: links_canceled_def)
  with rf have "r_file_transfers row = Some frow" by simp
  then show ?thesis using mr \<open>f_file_state frow = CANCELED\<close>
    by (simp add: rowCallback_def Let_def)
qed

lemma onFileInsertionReady_inserts_canceled:
  assumes c: "consistent h"
    and i: "ins_historyId insertionData \<in> set (history_ids h)"
  shows "\<exists>h' dbId row.
     onFileInsertionReady h insertionData =
       Inr (h', [fileInserted dbId (ins_fileId insertionData)]) \<and>
     file_row h' dbId = Some row \<and> f_file_state row = CANCELED \<and> f_file_hash row = [] \<and>
     (\<forall>msgs m. getChatHistory h' friendPk fromMs toMs n = Inr msgs \<longrightarrow>
        m \<in> set msgs \<longrightarrow> hm_id m = ins_historyId insertionData \<longrightarrow>
        (\<exists>f. hm_content m = FileContent f \<and> tf_status f = CANCELED))"
proof -
  from c obtain d where d: "db h = Some d" and op: "isOpen d"
    by (auto simp: consistent_def split: option.splits)
  define peerId where "peerId = fst (qhash_index (peers h) (ins_friendPk insertionData) 0)"
  define ps where "ps = snd (qhash_index (peers h) (ins_friendPk insertionData) 0)"
  let ?fid = "next_rowid (map f_id (file_transfers_tbl d))"
  let ?row = "\<lparr>f_id = ?fid, f_chat_id = peerId,
             f_file_restart_id = ins_fileId insertionData, f_file_name = ins_fileName insertionData,
             f_file_path = ins_filePath insertionData, f_file_hash = [],
             f_file_size = ins_size insertionData, f_direction = ins_direction insertionData,
             f_file_state = CANCELED\<rparr>"
  from onFileInsertionReady_effect [OF d op, of insertionData] obtain d' where
    r: "onFileInsertionReady h insertionData =
          Inr (h\<lparr>db := Some d', peers := ps\<rparr>, [fileInserted ?fid (ins_fileId insertionData)])" and
    ft: "file_transfers_tbl d' = file_transfers_tbl d @ [?row]" and
    ht: "history_tbl d' =
           map (\<lambda>r. if h_id r = ins_historyId insertionData then r\<lparr>h_file_id := Some ?fid\<rparr> else r)
             (history_tbl d)"
    unfolding peerId_def ps_def by blast
  let ?h' = "h\<lparr>db := Some d', peers := ps\<rparr>"
  have fr: "\<forall>f \<in> set (file_transfers_tbl d). f_id f \<noteq> ?fid"
    using next_rowid_fresh [of "map f_id (file_transfers_tbl d)"] by force
  have fnd: "find (\<lambda>f. f_id f = ?fid) (file_transfers_tbl d') = Some ?row"
    using find_fresh_snoc [OF fr, of ?row "[]"] ft by simp
  have lk: "links_canceled d' (ins_historyId insertionData)"
    unfolding links_canceled_def ht using fnd by auto
  have d': "db ?h' = Some d'" by simp
  have fetch: "\<forall>msgs m. getChatHistory ?h' friendPk fromMs toMs n = Inr msgs \<longrightarrow>
        m \<in> set msgs \<longrightarrow> hm_id m = ins_historyId insertionData \<longrightarrow>
        (\<exists>f. hm_content m = FileContent f \<and> tf_status f = CANCELED)"
    using fetch_reports_canceled [OF d' lk] by blast
  have fr': "file_row ?h' ?fid = Some ?row" using fnd by (simp add: file_row_def)
  show ?thesis
    apply (rule exI [of _ ?h'])
    apply (rule exI [of _ ?fid])
    apply (rule exI [of _ ?row])
    using r fr' fetch by simp
qed

text \<open>
  C10.  \<^verbatim>\<open>onFileInsertionReady\<close> is the one place that inserts into
  \<^verbatim>\<open>file_transfers\<close>, and the row it inserts has the state \<^verbatim>\<open>CANCELED\<close> and an
  empty hash; a fetch right after it reports that state (lemma
  \<open>onFileInsertionReady_inserts_canceled\<close>).  The claim goes on: until the finishing
  update of that transfer, every fetch reports \<^verbatim>\<open>CANCELED\<close>.  The code does not keep
  the finishing updates of two transfers apart.  \<^verbatim>\<open>fileInfos\<close> holds the row id of a
  transfer under its session id until \<^verbatim>\<open>setFileFinished\<close> runs;
  \<^verbatim>\<open>removeFriendHistory\<close> deletes the rows of the friend's transfers and leaves their
  entries in \<^verbatim>\<open>fileInfos\<close>; and the next row of \<^verbatim>\<open>file_transfers\<close> gets the
  largest id of the table plus one, the id of a deleted row again.  In the run
  \<open>stale_run\<close> both sessions hold the row id 1.  The fetch of the chat with A reports
  the file of the session \<^verbatim>\<open>sA\<close> as \<^verbatim>\<open>CANCELED\<close>; then the transfer of the session
  \<^verbatim>\<open>sB\<close> ends, \<^verbatim>\<open>setFileFinished\<close> updates the row with id 1, and the fetch of the
  chat with A reports the file of \<^verbatim>\<open>sA\<close> as \<^verbatim>\<open>FINISHED\<close> with the path of the
  other transfer, while \<^verbatim>\<open>setFileFinished\<close> has not run for \<^verbatim>\<open>sA\<close>.
\<close>

theorem stale_finish_marks_reused_row:
  "linked_transfers before_stale_finish = [(''sB'', 1), (''sA'', 1)] \<and>
   fetched before_stale_finish ''A'' =
     [(1, FileContent \<lparr>tf_fileKind = TOX_FILE_KIND_DATA, tf_resumeFileId = ''sA'',
                          tf_filePath = ''/tmp/g.txt'', tf_fileName = ''g.txt'', tf_filesize = 7,
                          tf_direction = SENDING, tf_status = CANCELED\<rparr>)] \<and>
   fetched after_stale_finish ''A'' =
     [(1, FileContent \<lparr>tf_fileKind = TOX_FILE_KIND_DATA, tf_resumeFileId = ''sA'',
                          tf_filePath = ''/x'', tf_fileName = ''g.txt'', tf_filesize = 7,
                          tf_direction = SENDING, tf_status = FINISHED\<rparr>)] \<and>
   linked_transfers after_stale_finish = [(''sA'', 1)] \<and>
   file_rows after_stale_finish =
     [\<lparr>f_id = 1, f_chat_id = 2, f_file_restart_id = ''sA'', f_file_name = ''g.txt'',
       f_file_path = ''/x'', f_file_hash = ''hash'', f_file_size = 7, f_direction = SENDING,
       f_file_state = FINISHED\<rparr>]"
  by code_simp

section \<open>Erasing the history of one friend\<close>




lemma removeFriendHistory_effect:
  assumes d: "db h = Some d" and op: "isOpen d" and m: "map_of (peers h) friendPk = Some i"
  shows "\<exists>d'. removeFriendHistory h friendPk =
           h\<lparr>db := Some d', peers := AList.delete friendPk (peers h)\<rparr> \<and>
         peers_tbl d' = filter (\<lambda>p. p_id p \<noteq> i) (peers_tbl d) \<and>
         aliases_tbl d' = filter (\<lambda>a. a_owner a \<noteq> i) (aliases_tbl d) \<and>
         history_tbl d' = filter (\<lambda>r. h_chat_id r \<noteq> i) (history_tbl d) \<and>
         file_transfers_tbl d' = filter (\<lambda>f. f_chat_id f \<noteq> i) (file_transfers_tbl d) \<and>
         faux_offline_pending_tbl d' =
           filter (\<lambda>m. (m, i) \<notin> set (map (\<lambda>r. (h_id r, h_chat_id r)) (history_tbl d)))
             (faux_offline_pending_tbl d) \<and>
         isOpen d' \<and> user_version d' = user_version d"
  using d op m
  apply (simp add: removeFriendHistory_def execNow_def)
  apply (rule exI)
  apply (rule conjI)
   apply (rule refl)
  apply simp
  done



section \<open>Messages per day\<close>













section \<open>The text of the search query\<close>

lemmas query_text_defs =
  getDateWhereFindPhrase_queryText_def plain_search_def before_phrase_def after_phrase_def
  arg_def is_digit_def digit_value_def replace_char_def toLower_def number_def number_nat.simps
  Let_def

lemma query_hello:
  "getDateWhereFindPhrase_queryText generateFilterWordsOnly 9000 ''A'' (Some 5000) ''hello''
     plain_search = before_phrase @ ''hello'' @ after_phrase"
  by (simp add: query_text_defs)

lemma query_quote:
  "getDateWhereFindPhrase_queryText generateFilterWordsOnly 9000 ''A'' (Some 5000) ''it's''
     plain_search = before_phrase @ ''it'' @ [CHR 0x27, CHR 0x27] @ ''s'' @ after_phrase"
  by (simp add: query_text_defs)

lemma query_marker:
  "getDateWhereFindPhrase_queryText generateFilterWordsOnly 9000 ''A'' (Some 5000) ''%1''
     plain_search =
       before_phrase @ ''AND timestamp < '5000' ORDER BY timestamp DESC LIMIT 1;'' @ ''%' %3''"
  by (simp add: query_text_defs)

text \<open>
  C8.  The claim is that no phrase can change the structure of the query.  The code
  doubles the quotes of the phrase, which keeps a phrase such as \<^verbatim>\<open>hello\<close> or
  \<^verbatim>\<open>it's\<close> inside the string literal of the \<^verbatim>\<open>LIKE\<close> pattern, between the
  same text before and after.  It does not guard the phrase against the place markers of
  \<^verbatim>\<open>QString::arg\<close>: the query is built by \<^verbatim>\<open>.arg(friendPk).arg(message).arg(period)\<close>,
  and after the phrase has been substituted each later \<^verbatim>\<open>arg\<close> scans it again.  With
  the phrase \<^verbatim>\<open>%1\<close> the last call finds the marker \<^verbatim>\<open>%1\<close> of the phrase to be the
  lowest one, puts the \<^verbatim>\<open>AND timestamp < ...\<close> clause inside the string literal and
  leaves \<^verbatim>\<open>%3\<close> at the end of the text.
\<close>

theorem search_phrase_can_alter_query:
  "getDateWhereFindPhrase_queryText generateFilterWordsOnly 9000 ''A'' (Some 5000) ''hello''
     plain_search = before_phrase @ ''hello'' @ after_phrase \<and>
   getDateWhereFindPhrase_queryText generateFilterWordsOnly 9000 ''A'' (Some 5000) ''it's''
     plain_search = before_phrase @ ''it'' @ [CHR 0x27, CHR 0x27] @ ''s'' @ after_phrase \<and>
   getDateWhereFindPhrase_queryText generateFilterWordsOnly 9000 ''A'' (Some 5000) ''%1''
     plain_search =
       before_phrase @ ''AND timestamp < '5000' ORDER BY timestamp DESC LIMIT 1;'' @ ''%' %3'' \<and>
   getDateWhereFindPhrase_queryText generateFilterWordsOnly 9000 ''A'' (Some 5000) ''%1''
     plain_search \<noteq> before_phrase @ ''%1'' @ after_phrase"
  unfolding query_hello query_quote query_marker by (simp add: after_phrase_def)

section \<open>A store that is too new\<close>

lemma too_new_eq: "too_new = \<lparr>db = None, peers = [], fileInfos = [], connected = False\<rparr>"
  by (simp add: too_new_def History_new_def too_new_db_def dbSchemaUpgrade_def SCHEMA_VERSION_def)

text \<open>
  C6.  The claim is that a store whose version exceeds \<^verbatim>\<open>SCHEMA_VERSION\<close> is left
  unavailable without a write, and that afterwards every read is empty and every write a
  no-op.  \<^verbatim>\<open>dbSchemaUpgrade\<close> resets the pointer before it queues anything, the
  constructor stops, and the functions that test \<^verbatim>\<open>isValid()\<close> do as the claim
  says; \<^verbatim>\<open>setFileFinished\<close> has no test and still changes nothing.  The two search
  functions \<^verbatim>\<open>getDateWhereFindPhrase\<close> and \<^verbatim>\<open>getStartDateChatHistory\<close> have no
  test either and call \<^verbatim>\<open>db->execNow\<close> on the null pointer.
\<close>

theorem too_new_store_search_uses_null_db:
  "dbSchemaUpgrade too_new_db = None \<and>
   too_new = \<lparr>db = None, peers = [], fileInfos = [], connected = False\<rparr> \<and>
   \<not> isValid too_new \<and>
   addNewMessage True too_new friendPk msg sender time isSent dispName cb = (too_new, []) \<and>
   addNewFileMessage True too_new friendPk fileId fileName filePath sz sender time dispName =
     (too_new, []) \<and>
   markAsSent too_new messageId = too_new \<and>
   eraseHistory too_new = too_new \<and>
   removeFriendHistory too_new friendPk = too_new \<and>
   setFileFinished too_new fileId success filePath fileHash = Inr (too_new, []) \<and>
   getChatHistoryFromDate too_new friendPk fromMs toMs = Inr [] \<and>
   getChatHistoryDefaultNum now too_new friendPk = Inr [] \<and>
   isHistoryExistence now too_new friendPk = Inr False \<and>
   getChatHistoryCounts tz too_new friendPk fromDate toDate = [] \<and>
   getDateWhereFindPhrase generateFilterWordsOnly run_select now too_new friendPk fromTime phrase
     parameter = Inl NullPointerDereference \<and>
   getStartDateChatHistory run_select too_new friendPk = Inl NullPointerDereference"
  by (simp add: too_new_eq too_new_db_def dbSchemaUpgrade_def SCHEMA_VERSION_def isValid_def
      addNewMessage_def addNewFileMessage_def markAsSent_def eraseHistory_def
      removeFriendHistory_def setFileFinished_def qhash_index_def FileInfo_default_def
      getChatHistoryFromDate_def getChatHistoryDefaultNum_def isHistoryExistence_def
      getChatHistoryCounts_def getDateWhereFindPhrase_def getStartDateChatHistory_def Let_def)

section \<open>Every operation keeps a store consistent\<close>

text \<open>
  The constructor makes a consistent store of a database that satisfies the constraints of
  its schema and whose peer ids fit \<^verbatim>\<open>int\<close>, and every operation of
  \<^verbatim>\<open>History\<close> that returns keeps a consistent store consistent, a new message as
  long as its public keys are plain.
\<close>

lemma consistent_addNewMessage:
  assumes "consistent h" and "plain_key friendPk" and "plain_key sender"
  shows "consistent (fst (addNewMessage enableLogging h friendPk msg sender time isSent dispName cb))"
proof (cases enableLogging)
  case False
  then show ?thesis using assms by (simp add: addNewMessage_def)
next
  case True
  from assms obtain d where d: "db h = Some d" by (auto simp: consistent_def split: option.splits)
  from addNewMessage_effect [OF assms(1) d assms(2,3), of msg time isSent dispName cb]
  show ?thesis using True by auto
qed

lemma consistent_markAsSent: "consistent h \<Longrightarrow> consistent (markAsSent h messageId)"
  by (auto simp: consistent_def markAsSent_def execLater_def peers_cached_def split: option.splits)

lemma consistent_eraseHistory: "consistent h \<Longrightarrow> consistent (eraseHistory h)"
  by (auto simp: consistent_def eraseHistory_def execNow_def peers_cached_def split: option.splits)

lemma consistent_removeFriendHistory:
  assumes c: "consistent h"
  shows "consistent (removeFriendHistory h friendPk)"
proof -
  from c obtain d where d: "db h = Some d" and op: "isOpen d" and pc: "peers_cached (peers h) d"
    and da: "distinct (map a_id (aliases_tbl d))" and dh: "distinct (map h_id (history_tbl d))"
    and df: "distinct (map f_id (file_transfers_tbl d))"
    and dp: "distinct (faux_offline_pending_tbl d)"
    and sub: "set (faux_offline_pending_tbl d) \<subseteq> set (map h_id (history_tbl d))"
    by (auto simp: consistent_def split: option.splits)
  show ?thesis
  proof (cases "map_of (peers h) friendPk")
    case None
    then show ?thesis using c d op by (simp add: removeFriendHistory_def)
  next
    case (Some i)
    from removeFriendHistory_effect [OF d op Some] obtain d' where
      r: "removeFriendHistory h friendPk = h\<lparr>db := Some d', peers := AList.delete friendPk (peers h)\<rparr>" and
      pt: "peers_tbl d' = filter (\<lambda>p. p_id p \<noteq> i) (peers_tbl d)" and
      at: "aliases_tbl d' = filter (\<lambda>a. a_owner a \<noteq> i) (aliases_tbl d)" and
      ht: "history_tbl d' = filter (\<lambda>r. h_chat_id r \<noteq> i) (history_tbl d)" and
      ft: "file_transfers_tbl d' = filter (\<lambda>f. f_chat_id f \<noteq> i) (file_transfers_tbl d)" and
      xt: "faux_offline_pending_tbl d' =
             filter (\<lambda>m. (m, i) \<notin> set (map (\<lambda>r. (h_id r, h_chat_id r)) (history_tbl d)))
               (faux_offline_pending_tbl d)" and
      op': "isOpen d'"
      by blast
    from pc have dk: "distinct (map fst (peers h))" by (simp add: peers_cached_def)
    have other: "p_public_key p \<noteq> friendPk" if "p \<in> set (peers_tbl d)" "p_id p \<noteq> i" for p
    proof
      assume "p_public_key p = friendPk"
      with that(1) pc have "(friendPk, p_id p) \<in> set (peers h)" by (auto simp: peers_cached_def)
      with dk have "map_of (peers h) friendPk = Some (p_id p)" by (simp add: map_of_is_SomeI)
      with Some that(2) show False by simp
    qed
    have pc': "peers_cached (AList.delete friendPk (peers h)) d'"
      using pc other unfolding peers_cached_def pt
      by (auto simp: distinct_map_filter distinct_delete AList.delete_eq)
    have sub': "set (faux_offline_pending_tbl d') \<subseteq> set (map h_id (history_tbl d'))"
      unfolding xt ht using sub by force
    show ?thesis
      unfolding r using pc' sub' op' da dh df dp
      by (simp add: consistent_def at ht ft xt distinct_map_filter)
  qed
qed


lemma map_f_id_update:
  "map f_id (map (\<lambda>r. if f_id r = i then r\<lparr>f_file_state := st, f_file_path := p, f_file_hash := fh\<rparr> else r) xs) =
   map f_id xs"
  by (induction xs) auto

lemma generateFileFinished_keeps:
  assumes "execLater [generateFileFinished i s p fh] d = (d', sigs)"
  shows "isOpen d' = isOpen d \<and> peers_tbl d' = peers_tbl d \<and> aliases_tbl d' = aliases_tbl d \<and>
         history_tbl d' = history_tbl d \<and> faux_offline_pending_tbl d' = faux_offline_pending_tbl d \<and>
         map f_id (file_transfers_tbl d') = map f_id (file_transfers_tbl d)"
  using assms
  by (auto simp: execLater_def generateFileFinished_def Let_def map_f_id_update split: if_splits)

lemma consistent_update:
  assumes "consistent h" and "db h = Some d"
    and "isOpen d' = isOpen d \<and> peers_tbl d' = peers_tbl d \<and> aliases_tbl d' = aliases_tbl d \<and>
         history_tbl d' = history_tbl d \<and> faux_offline_pending_tbl d' = faux_offline_pending_tbl d \<and>
         map f_id (file_transfers_tbl d') = map f_id (file_transfers_tbl d)"
  shows "consistent (h\<lparr>db := Some d', fileInfos := infos\<rparr>)"
  using assms by (simp add: consistent_def peers_cached_def)

lemma consistent_fileInfos: "consistent (h\<lparr>fileInfos := infos\<rparr>) = consistent h"
  by (simp add: consistent_def split: option.splits)

lemma consistent_onFileInserted:
  assumes c: "consistent h" and r: "onFileInserted h dbId fileId = Inr (h', sigs)"
  shows "consistent h'"
proof -
  from c obtain d where d: "db h = Some d" by (auto simp: consistent_def split: option.splits)
  obtain fileInfo infos where q: "qhash_index (fileInfos h) fileId FileInfo_default = (fileInfo, infos)"
    by (cases "qhash_index (fileInfos h) fileId FileInfo_default")
  show ?thesis
  proof (cases "fi_finished fileInfo")
    case True
    obtain d' sg where e: "execLater [generateFileFinished dbId (fi_success fileInfo)
                                       (fi_filePath fileInfo) (fi_fileHash fileInfo)] d = (d', sg)"
      by (cases "execLater [generateFileFinished dbId (fi_success fileInfo)
                                       (fi_filePath fileInfo) (fi_fileHash fileInfo)] d")
    from r q True d e have "h' = h\<lparr>db := Some d', fileInfos := AList.delete fileId infos\<rparr>"
      by (simp add: onFileInserted_def)
    with consistent_update [OF c d generateFileFinished_keeps [OF e]] show ?thesis by simp
  next
    case False
    with r q have "h' = h\<lparr>fileInfos :=
                        AList.update fileId (fileInfo\<lparr>fi_finished := False, fi_fileId := dbId\<rparr>) infos\<rparr>"
      by (simp add: onFileInserted_def)
    with c show ?thesis by (simp add: consistent_fileInfos)
  qed
qed

lemma consistent_setFileFinished:
  assumes c: "consistent h" and r: "setFileFinished h fileId success filePath fileHash = Inr (h', sigs)"
  shows "consistent h'"
proof -
  from c obtain d where d: "db h = Some d" by (auto simp: consistent_def split: option.splits)
  obtain fileInfo infos where q: "qhash_index (fileInfos h) fileId FileInfo_default = (fileInfo, infos)"
    by (cases "qhash_index (fileInfos h) fileId FileInfo_default")
  show ?thesis
  proof (cases "fi_fileId fileInfo = - 1")
    case True
    with r q have "\<exists>infos'. h' = h\<lparr>fileInfos := infos'\<rparr>"
      by (auto simp: setFileFinished_def)
    with c show ?thesis by (auto simp: consistent_fileInfos)
  next
    case False
    obtain d' sg where e: "execLater [generateFileFinished (fi_fileId fileInfo) success filePath
                                       fileHash] d = (d', sg)"
      by (cases "execLater [generateFileFinished (fi_fileId fileInfo) success filePath fileHash] d")
    from r q False d e have "h' = h\<lparr>db := Some d', fileInfos := AList.delete fileId infos\<rparr>"
      by (simp add: setFileFinished_def)
    with consistent_update [OF c d generateFileFinished_keeps [OF e]] show ?thesis by simp
  qed
qed

lemma consistent_onFileInsertionReady:
  assumes c: "consistent h" and r: "onFileInsertionReady h insertionData = Inr (h', sigs)"
  shows "consistent h'"
proof -
  from c obtain d where d: "db h = Some d" and op: "isOpen d" and pc: "peers_cached (peers h) d"
    by (auto simp: consistent_def split: option.splits)
  let ?ps = "snd (qhash_index (peers h) (ins_friendPk insertionData) 0)"
  from onFileInsertionReady_effect [OF d op, of insertionData] r obtain d' where
    h': "h' = h\<lparr>db := Some d', peers := ?ps\<rparr>" and
    ft: "map f_id (file_transfers_tbl d') =
           map f_id (file_transfers_tbl d) @ [next_rowid (map f_id (file_transfers_tbl d))]" and
    ht: "history_tbl d' =
           map (\<lambda>r. if h_id r = ins_historyId insertionData
                    then r\<lparr>h_file_id := Some (next_rowid (map f_id (file_transfers_tbl d)))\<rparr>
                    else r) (history_tbl d)" and
    rest: "peers_tbl d' = peers_tbl d" "aliases_tbl d' = aliases_tbl d"
          "faux_offline_pending_tbl d' = faux_offline_pending_tbl d" "isOpen d'"
    by auto
  have ids: "map h_id (history_tbl d') = map h_id (history_tbl d)"
    unfolding ht by (induction "history_tbl d") auto
  show ?thesis
    unfolding h'
    using c d rest ft ids next_rowid_fresh [of "map f_id (file_transfers_tbl d)"]
      peers_cached_cong [of d' d ?ps]
      peers_cached_qhash_index [OF pc, of "ins_friendPk insertionData" 0]
    by (simp add: consistent_def)
qed

lemma consistent_deliver:
  assumes "consistent h" and "deliver h sg = Inr (h', sigs)"
  shows "consistent h'"
  using assms
  by (cases sg) (auto intro: consistent_onFileInsertionReady consistent_onFileInserted split: if_splits)

lemma consistent_run:
  "consistent (fst s) \<Longrightarrow> run steps s = Inr s' \<Longrightarrow> consistent (fst s')"
proof (induction steps s rule: run.induct)
  case (1 s)
  then show ?case by simp
next
  case (2 steps h)
  then show ?case by simp
next
  case (3 steps h sg waiting)
  then show ?case by (auto split: sum.splits dest: consistent_deliver)
next
  case (4 fileId success filePath fileHash steps h waiting)
  then show ?case by (auto split: sum.splits dest: consistent_setFileFinished)
qed

lemma fold_update_peers:
  assumes "distinct (map p_public_key rows)" and "distinct (map fst acc)"
    and "set (map p_public_key rows) \<inter> fst ` set acc = {}"
  shows "distinct (map fst (fold (\<lambda>row m. AList.update (p_public_key row) (toInt (p_id row)) m) rows acc)) \<and>
         set (fold (\<lambda>row m. AList.update (p_public_key row) (toInt (p_id row)) m) rows acc) =
           set acc \<union> set (map (\<lambda>p. (p_public_key p, toInt (p_id p))) rows)"
  using assms
proof (induction rows arbitrary: acc)
  case Nil
  then show ?case by simp
next
  case (Cons row rows)
  from Cons.prems have k: "p_public_key row \<notin> fst ` set acc" by auto
  then have u: "AList.update (p_public_key row) (toInt (p_id row)) acc =
                acc @ [(p_public_key row, toInt (p_id row))]"
    by (rule update_new_key)
  have "distinct (map p_public_key rows)" using Cons.prems by simp
  moreover have "distinct (map fst (acc @ [(p_public_key row, toInt (p_id row))]))"
    using Cons.prems k by simp
  moreover have "set (map p_public_key rows) \<inter> fst ` set (acc @ [(p_public_key row, toInt (p_id row))]) = {}"
    using Cons.prems by auto
  ultimately show ?case using Cons.IH [of "acc @ [(p_public_key row, toInt (p_id row))]"] u by auto
qed

lemma consistent_History_new:
  assumes "isOpen d" and "user_version d \<le> SCHEMA_VERSION"
    and "distinct (map p_id (peers_tbl d))" and "distinct (map p_public_key (peers_tbl d))"
    and "\<forall>p \<in> set (peers_tbl d). toInt (p_id p) = p_id p"
    and "distinct (map a_id (aliases_tbl d))" and "distinct (map h_id (history_tbl d))"
    and "distinct (map f_id (file_transfers_tbl d))" and "distinct (faux_offline_pending_tbl d)"
    and "set (faux_offline_pending_tbl d) \<subseteq> set (map h_id (history_tbl d))"
  shows "consistent (History_new (Some d))"
proof -
  have "\<exists>d1. dbSchemaUpgrade d = Some d1 \<and> isOpen d1 \<and> peers_tbl d1 = peers_tbl d \<and>
          aliases_tbl d1 = aliases_tbl d \<and> history_tbl d1 = history_tbl d \<and>
          file_transfers_tbl d1 = file_transfers_tbl d \<and>
          faux_offline_pending_tbl d1 = faux_offline_pending_tbl d"
    using assms(1,2) by (simp add: dbSchemaUpgrade_def execLater_def Let_def)
  then obtain d1 where u: "dbSchemaUpgrade d = Some d1" and
    same: "isOpen d1" "peers_tbl d1 = peers_tbl d" "aliases_tbl d1 = aliases_tbl d"
      "history_tbl d1 = history_tbl d" "file_transfers_tbl d1 = file_transfers_tbl d"
      "faux_offline_pending_tbl d1 = faux_offline_pending_tbl d"
    by blast
  have e: "fst (execLater [([CREATE_TABLES], None)] d1) = d1"
    using same(1) by (simp add: execLater_def)
  from fold_update_peers [of "peers_tbl d" "[]"] assms(4)
  have f: "distinct (map fst (fold (\<lambda>row m. AList.update (p_public_key row) (toInt (p_id row)) m)
                                 (peers_tbl d) []))"
    and g: "set (fold (\<lambda>row m. AList.update (p_public_key row) (toInt (p_id row)) m) (peers_tbl d) []) =
            set (map (\<lambda>p. (p_public_key p, toInt (p_id p))) (peers_tbl d))"
    by simp_all
  have g': "set (map (\<lambda>p. (p_public_key p, p_id p)) (peers_tbl d)) \<subseteq>
            set (fold (\<lambda>row m. AList.update (p_public_key row) (toInt (p_id row)) m) (peers_tbl d) [])"
    unfolding g using assms(5) by force
  show ?thesis
    using assms u same e f g'
    by (simp add: History_new_def Let_def consistent_def peers_cached_def)
qed

end
